theory Spec2Isabelle
  imports Complex_Main
begin

section \<open>Style transitions of react-strict-dom: the model\<close>

text \<open>
  A shallow embedding of \<^verbatim>\<open>packages/react-strict-dom/src/native/modules/useStyleTransition.js\<close>.
  Every definition below is named after the source function (or the source expression)
  it embeds. The host language's values are modelled as far as the module inspects them.
\<close>

subsection \<open>Values of the host language\<close>

text \<open>
  A number is compared by the module only with \<^verbatim>\<open>===\<close> and \<^verbatim>\<open>!==\<close>. Under these
  operators every number equals itself, except the not-a-number value, which equals
  nothing. (The two zeros are identified, as \<^verbatim>\<open>===\<close> identifies them.)
\<close>

datatype number = NaN | Fin real | PlusInfinity | MinusInfinity

definition num_strict_eq :: "number \<Rightarrow> number \<Rightarrow> bool" where
  "num_strict_eq x y = (x \<noteq> NaN \<and> x = y)"

text \<open>The magnitude of a transform operation is a number or a string.\<close>

datatype prim = PNum number | PStr string

fun prim_strict_eq :: "prim \<Rightarrow> prim \<Rightarrow> bool" where
  "prim_strict_eq (PNum x) (PNum y) = num_strict_eq x y"
| "prim_strict_eq (PStr s) (PStr t) = (s = t)"
| "prim_strict_eq _ _ = False"

text \<open>
  The Flow type \<^verbatim>\<open>Transform\<close>: an object with optional fields. A field that is absent,
  \<^verbatim>\<open>undefined\<close> or \<^verbatim>\<open>null\<close> is \<open>None\<close>: the module tests fields only with
  \<^verbatim>\<open>!= null\<close> and \<^verbatim>\<open>== null\<close>, which do not tell the three apart. The field
  \<^verbatim>\<open>rotate\<close> is written \<open>rotate'\<close>.
\<close>

record transform =
  perspective :: "prim option"
  rotate' :: "prim option"
  rotateX :: "prim option"
  rotateY :: "prim option"
  rotateZ :: "prim option"
  scale :: "prim option"
  scaleX :: "prim option"
  scaleY :: "prim option"
  scaleZ :: "prim option"
  skewX :: "prim option"
  skewY :: "prim option"
  translateX :: "prim option"
  translateY :: "prim option"
  matrix :: "number list option"

definition no_fields :: transform where
  "no_fields = \<lparr>perspective = None, rotate' = None, rotateX = None, rotateY = None,
     rotateZ = None, scale = None, scaleX = None, scaleY = None, scaleZ = None,
     skewX = None, skewY = None, translateX = None, translateY = None, matrix = None\<rparr>"

text \<open>
  An array held by a style is a transform stack (objects), or a list of primitive values
  such as the names of \<^verbatim>\<open>fontVariant\<close>. Reading a transform field off a primitive
  element gives \<^verbatim>\<open>undefined\<close>: \<open>obj_view\<close> is what property access sees.
\<close>

datatype elem = Op transform | Prim prim

fun obj_view :: "elem \<Rightarrow> transform" where
  "obj_view (Op t) = t"
| "obj_view (Prim p) = no_fields"

text \<open>
  A style value. Arrays and other objects have an identity (the natural number), which is
  all that \<^verbatim>\<open>===\<close> compares of them; an array carries its elements beside it.
\<close>

datatype jsval =
    VUndefined
  | VNull
  | VBool bool
  | VNum number
  | VStr string
  | VArr nat "elem list"
  | VObj nat

datatype jstype = TUndefined | TObject | TBoolean | TNumber | TString

fun typeof :: "jsval \<Rightarrow> jstype" where
  "typeof VUndefined = TUndefined"
| "typeof VNull = TObject"
| "typeof (VBool b) = TBoolean"
| "typeof (VNum n) = TNumber"
| "typeof (VStr s) = TString"
| "typeof (VArr r xs) = TObject"
| "typeof (VObj r) = TObject"

fun strict_eq :: "jsval \<Rightarrow> jsval \<Rightarrow> bool" where
  "strict_eq VUndefined VUndefined = True"
| "strict_eq VNull VNull = True"
| "strict_eq (VBool a) (VBool b) = (a = b)"
| "strict_eq (VNum x) (VNum y) = num_strict_eq x y"
| "strict_eq (VStr s) (VStr t) = (s = t)"
| "strict_eq (VArr r xs) (VArr r' ys) = (r = r')"
| "strict_eq (VObj r) (VObj r') = (r = r')"
| "strict_eq _ _ = False"

fun isNumber :: "jsval \<Rightarrow> bool" where
  "isNumber (VNum n) = True"
| "isNumber _ = False"

fun isString :: "jsval \<Rightarrow> bool" where
  "isString (VStr s) = True"
| "isString _ = False"

fun isArray :: "jsval \<Rightarrow> bool" where
  "isArray (VArr r xs) = True"
| "isArray _ = False"

fun elems :: "jsval \<Rightarrow> elem list" where
  "elems (VArr r xs) = xs"
| "elems _ = []"

fun is_nullish :: "jsval \<Rightarrow> bool" where
  "is_nullish VUndefined = True"
| "is_nullish VNull = True"
| "is_nullish _ = False"

text \<open>
  A style object: its own properties in enumeration order. \<open>get_prop s k\<close> is \<^verbatim>\<open>s[k]\<close>,
  \<open>set_prop k v s\<close> is the assignment \<^verbatim>\<open>s[k] = v\<close> (on a copy): an existing key keeps its
  place, a new key goes last.
\<close>

type_synonym 'v obj = "(string \<times> 'v) list"

type_synonym style = "jsval obj"

definition get_prop :: "style \<Rightarrow> string \<Rightarrow> jsval" where
  "get_prop s k = (case map_of s k of None \<Rightarrow> VUndefined | Some v \<Rightarrow> v)"

fun set_prop :: "string \<Rightarrow> 'v \<Rightarrow> 'v obj \<Rightarrow> 'v obj" where
  "set_prop k v [] = [(k, v)]"
| "set_prop k v (p # ps) = (if fst p = k then (k, v) # ps else p # set_prop k v ps)"

subsection \<open>The transform compatibility checker\<close>

text \<open>The condition of the \<^verbatim>\<open>if\<close> in \<^verbatim>\<open>transformsHaveSameLengthTypesAndOrder\<close>.\<close>

definition types_mismatch :: "transform \<Rightarrow> transform \<Rightarrow> bool" where
  "types_mismatch tA tB =
    ((perspective tA \<noteq> None \<and> perspective tB = None) \<or>
     (rotate' tA \<noteq> None \<and> rotate' tB = None) \<or>
     (rotateX tA \<noteq> None \<and> rotateX tB = None) \<or>
     (rotateY tA \<noteq> None \<and> rotateY tB = None) \<or>
     (rotateZ tA \<noteq> None \<and> rotateZ tB = None) \<or>
     (scale tA \<noteq> None \<and> scale tB = None) \<or>
     (scaleX tA \<noteq> None \<and> scaleX tB = None) \<or>
     (scaleY tA \<noteq> None \<and> scaleY tB = None) \<or>
     (scaleZ tA \<noteq> None \<and> scaleZ tB = None) \<or>
     (skewX tA \<noteq> None \<and> skewX tB = None) \<or>
     (skewY tA \<noteq> None \<and> skewY tB = None) \<or>
     (translateX tA \<noteq> None \<and> translateX tB = None) \<or>
     (translateY tA \<noteq> None \<and> translateY tB = None))"

text \<open>The \<^verbatim>\<open>for\<close> loop of the checker, from index \<open>i\<close> on.\<close>

function types_loop :: "elem list \<Rightarrow> elem list \<Rightarrow> nat \<Rightarrow> bool" where
  "types_loop transformsA transformsB i =
    (if i < length transformsA
     then (if types_mismatch (obj_view (transformsA ! i)) (obj_view (transformsB ! i))
           then False
           else types_loop transformsA transformsB (Suc i))
     else True)"
  by pat_completeness auto
termination
  by (relation "measure (\<lambda>(transformsA, transformsB, i). length transformsA - i)") auto

declare types_loop.simps [simp del]

definition transformsHaveSameLengthTypesAndOrder :: "elem list \<Rightarrow> elem list \<Rightarrow> bool" where
  "transformsHaveSameLengthTypesAndOrder transformsA transformsB =
    (if length transformsA \<noteq> length transformsB then False
     else types_loop transformsA transformsB 0)"

text \<open>
  One disjunct of the condition in \<^verbatim>\<open>transformListsAreEqual\<close>:
  \<^verbatim>\<open>tA.k != null && tA.k !== tB.k\<close>.
\<close>

fun fld_differs :: "prim option \<Rightarrow> prim option \<Rightarrow> bool" where
  "fld_differs None y = False"
| "fld_differs (Some p) None = True"
| "fld_differs (Some p) (Some q) = (\<not> prim_strict_eq p q)"

definition values_differ :: "transform \<Rightarrow> transform \<Rightarrow> bool" where
  "values_differ tA tB =
    (fld_differs (perspective tA) (perspective tB) \<or>
     fld_differs (rotate' tA) (rotate' tB) \<or>
     fld_differs (rotateX tA) (rotateX tB) \<or>
     fld_differs (rotateY tA) (rotateY tB) \<or>
     fld_differs (rotateZ tA) (rotateZ tB) \<or>
     fld_differs (scale tA) (scale tB) \<or>
     fld_differs (scaleX tA) (scaleX tB) \<or>
     fld_differs (scaleY tA) (scaleY tB) \<or>
     fld_differs (scaleZ tA) (scaleZ tB) \<or>
     fld_differs (skewX tA) (skewX tB) \<or>
     fld_differs (skewY tA) (skewY tB) \<or>
     fld_differs (translateX tA) (translateX tB) \<or>
     fld_differs (translateY tA) (translateY tB))"

function values_loop :: "elem list \<Rightarrow> elem list \<Rightarrow> nat \<Rightarrow> bool" where
  "values_loop transformsA transformsB i =
    (if i < length transformsA
     then (if values_differ (obj_view (transformsA ! i)) (obj_view (transformsB ! i))
           then False
           else values_loop transformsA transformsB (Suc i))
     else True)"
  by pat_completeness auto
termination
  by (relation "measure (\<lambda>(transformsA, transformsB, i). length transformsA - i)") auto

declare values_loop.simps [simp del]

definition transformListsAreEqual :: "elem list \<Rightarrow> elem list \<Rightarrow> bool" where
  "transformListsAreEqual transformsA transformsB =
    (if \<not> transformsHaveSameLengthTypesAndOrder transformsA transformsB then False
     else values_loop transformsA transformsB 0)"

subsection \<open>The style differ\<close>

text \<open>
  The body of \<^verbatim>\<open>for (const propKey in next)\<close> over the keys still to visit. An
  \<^verbatim>\<open>undefined\<close> style is \<open>None\<close>.
\<close>

fun changed_loop :: "style \<Rightarrow> style \<Rightarrow> string list \<Rightarrow> bool" where
  "changed_loop next prev [] = False"
| "changed_loop next prev (propKey # keys) =
    (let prevValue = get_prop prev propKey; nextValue = get_prop next propKey in
     if typeof prevValue \<noteq> typeof nextValue then True
     else if isArray prevValue \<and> isArray nextValue \<and>
             \<not> transformListsAreEqual (elems prevValue) (elems nextValue) then True
     else if \<not> strict_eq prevValue nextValue then True
     else changed_loop next prev keys)"

definition transitionStyleHasChanged :: "style option \<Rightarrow> style option \<Rightarrow> bool" where
  "transitionStyleHasChanged next prev =
    (case next of
       None \<Rightarrow> False
     | Some n \<Rightarrow>
        (case prev of
           None \<Rightarrow> True
         | Some p \<Rightarrow> changed_loop n p (map fst n)))"

subsection \<open>Strings\<close>

text \<open>
  The string methods of the host language that the module calls. \<open>str_includes\<close> is
  \<^verbatim>\<open>String.prototype.includes\<close>; \<open>split_on\<close> is \<^verbatim>\<open>String.prototype.split\<close> for the
  separators the module uses, which are not empty: the pieces between the occurrences of
  the separator, found from left to right; \<open>trim\<close> removes the white space at both ends
  (the white space characters that fit in a \<open>char\<close>).
\<close>

fun str_includes :: "string \<Rightarrow> string \<Rightarrow> bool" where
  "str_includes sub [] = (sub = [])"
| "str_includes sub (c # cs) = (take (length sub) (c # cs) = sub \<or> str_includes sub cs)"

function split_on :: "string \<Rightarrow> string \<Rightarrow> string list" where
  "split_on sep [] = [[]]"
| "split_on sep (c # cs) =
    (if sep \<noteq> [] \<and> take (length sep) (c # cs) = sep
     then [] # split_on sep (drop (length sep - 1) cs)
     else (case split_on sep cs of
             [] \<Rightarrow> [[c]]
           | piece # pieces \<Rightarrow> (c # piece) # pieces))"
  by pat_completeness auto
termination
  by (relation "measure (\<lambda>(sep, s). length s)") auto

definition is_space :: "char \<Rightarrow> bool" where
  "is_space c = (c \<in> set [CHR 0x09, CHR 0x0A, CHR 0x0B, CHR 0x0C, CHR 0x0D, CHR '' '', CHR 0xA0])"

definition trim :: "string \<Rightarrow> string" where
  "trim s = rev (dropWhile is_space (rev (dropWhile is_space s)))"

subsection \<open>The transition config resolver\<close>

text \<open>
  \<^verbatim>\<open>Easing\<close> belongs to the host framework: a named curve is modelled by the call that
  makes it. \<^verbatim>\<open>Easing.bezier\<close> checks its arguments and may raise, so it is a parameter
  of \<open>getEasingFunction\<close> that returns a curve or an error, applied to the list of the
  arguments it is called with; \<^verbatim>\<open>parseFloat\<close>, the host language's, is a parameter too.
  The error the function raises by itself is the \<^verbatim>\<open>TypeError\<close> of calling \<^verbatim>\<open>split\<close>
  on \<^verbatim>\<open>undefined\<close>, when \<^verbatim>\<open>input.split('cubic-bezier(')\<close> has no second piece;
  \<open>HostError\<close> is an error raised inside the host framework. A \<^verbatim>\<open>null\<close> or
  \<^verbatim>\<open>undefined\<close> input is \<open>None\<close>.
\<close>

datatype easing =
    EasingEase
  | EasingIn easing
  | EasingOut easing
  | EasingInOut easing
  | EasingBezier "number list"
  | EasingLinear

datatype error = TypeError | HostError

definition getEasingFunction ::
  "(string \<Rightarrow> number) \<Rightarrow> (number list \<Rightarrow> error + easing) \<Rightarrow> string option
    \<Rightarrow> error + easing" where
  "getEasingFunction parseFloat bezier input =
    (if input = Some ''ease'' then Inr EasingEase
     else if input = Some ''ease-in'' then Inr (EasingIn EasingEase)
     else if input = Some ''ease-out'' then Inr (EasingOut EasingEase)
     else if input = Some ''ease-in-out'' then Inr (EasingInOut EasingEase)
     else (case input of
             None \<Rightarrow> Inr EasingLinear
           | Some s \<Rightarrow>
              if str_includes ''cubic-bezier'' s
              then (case split_on ''cubic-bezier('' s of
                      first # chunk # rest \<Rightarrow>
                        (let str = hd (split_on '')'' chunk);
                             curve = map (\<lambda>point. parseFloat (trim point)) (split_on '','' str)
                         in bezier curve)
                    | _ \<Rightarrow> Inl TypeError)
              else Inr EasingLinear))"

fun getTransitionProperties :: "jsval \<Rightarrow> string list option" where
  "getTransitionProperties (VStr s) =
    (if s = ''all'' then Some [''opacity'', ''transform'']
     else Some (map trim (split_on '','' s)))"
| "getTransitionProperties _ = None"

text \<open>
  \<^verbatim>\<open>Array.prototype.includes\<close> with a string argument: an element equals the string only
  if it is that string; an element that is an object never does.
\<close>

definition includes_string :: "string \<Rightarrow> elem list \<Rightarrow> bool" where
  "includes_string s xs = (Prim (PStr s) \<in> set xs)"

text \<open>The body of \<^verbatim>\<open>for (const property in transitionProperties)\<close>.\<close>

fun driver_loop :: "style \<Rightarrow> string list \<Rightarrow> bool" where
  "driver_loop transitionProperties [] = True"
| "driver_loop transitionProperties (property # keys) =
    (let v = get_prop transitionProperties property in
     if property = ''opacity'' then driver_loop transitionProperties keys
     else if property = ''transform'' \<and> isArray v \<and> \<not> includes_string ''skew'' (elems v)
          then driver_loop transitionProperties keys
     else False)"

definition canUseNativeDriver :: "style option \<Rightarrow> bool" where
  "canUseNativeDriver transitionProperties =
    (case transitionProperties of
       None \<Rightarrow> False
     | Some tp \<Rightarrow> driver_loop tp (map fst tp))"

text \<open>
  The transitionable subset (\<^verbatim>\<open>transitionStyle\<close>): the \<^verbatim>\<open>reduce\<close> over the resolved
  property names; \<^verbatim>\<open>undefined\<close> when \<^verbatim>\<open>getTransitionProperties\<close> returns \<^verbatim>\<open>null\<close>.
\<close>

definition transition_step :: "style \<Rightarrow> style \<Rightarrow> string \<Rightarrow> style" where
  "transition_step style output property =
    (let v = get_prop style property in
     if isString v \<or> isNumber v \<or> isArray v then set_prop property v output else output)"

definition transitionStyle :: "style \<Rightarrow> style option" where
  "transitionStyle style =
    map_option (foldl (transition_step style) [])
      (getTransitionProperties (get_prop style ''transitionProperty''))"

record transitionMetadata =
  delay :: number
  duration :: number
  timingFunction :: "string option"
  shouldUseNativeDriver :: bool

definition metadata :: "style \<Rightarrow> transitionMetadata" where
  "metadata style =
    \<lparr>delay = (case get_prop style ''transitionDelay'' of VNum n \<Rightarrow> n | _ \<Rightarrow> Fin 0),
     duration = (case get_prop style ''transitionDuration'' of VNum n \<Rightarrow> n | _ \<Rightarrow> Fin 16),
     timingFunction =
       (case get_prop style ''transitionTimingFunction'' of VStr s \<Rightarrow> Some s | _ \<Rightarrow> None),
     shouldUseNativeDriver = canUseNativeDriver (transitionStyle style)\<rparr>"

subsection \<open>The interpolation engine\<close>

text \<open>
  The kinds of transform the engine animates, in the order of its \<^verbatim>\<open>if\<close> statements,
  and the field of each.
\<close>

datatype kind =
    Perspective | Rotate | RotateX | RotateY | RotateZ
  | Scale | ScaleX | ScaleY | ScaleZ
  | SkewX | SkewY | TranslateX | TranslateY

fun fld :: "kind \<Rightarrow> transform \<Rightarrow> prim option" where
  "fld Perspective = perspective"
| "fld Rotate = rotate'"
| "fld RotateX = rotateX"
| "fld RotateY = rotateY"
| "fld RotateZ = rotateZ"
| "fld Scale = scale"
| "fld ScaleX = scaleX"
| "fld ScaleY = scaleY"
| "fld ScaleZ = scaleZ"
| "fld SkewX = skewX"
| "fld SkewY = skewY"
| "fld TranslateX = translateX"
| "fld TranslateY = translateY"

definition kinds :: "kind list" where
  "kinds = [Perspective, Rotate, RotateX, RotateY, RotateZ, Scale, ScaleX, ScaleY, ScaleZ,
            SkewX, SkewY, TranslateX, TranslateY]"

text \<open>
  What the engine hands to the renderer. \<^verbatim>\<open>animatedValue.interpolate\<close> belongs to the
  host framework: a bound value is modelled by the clock it is bound to and its output
  range. An end of the range is a value as given, or the value under unary \<^verbatim>\<open>+\<close> or
  \<^verbatim>\<open>String\<close>; the coercion itself is the host language's.
\<close>

datatype 'a endpoint = Given 'a | ToNumber 'a | ToString 'a

datatype 'a interpolation = Interpolation nat "'a endpoint" "'a endpoint"

datatype animated =
    Literal jsval
  | Animated "jsval interpolation"
  | AnimatedTransforms "(kind \<times> prim option interpolation) list"

datatype diagnostic =
    CountMismatch
  | MatrixNotAnimatable
  | TypesMismatch "elem list" "elem list"

definition warnMsg :: "bool \<Rightarrow> diagnostic \<Rightarrow> diagnostic list \<Rightarrow> diagnostic list" where
  "warnMsg dev d raised = (if dev then raised @ [d] else raised)"

text \<open>One round of the loop that animates the transforms: what it pushes, if anything.\<close>

definition animate_one ::
  "nat \<Rightarrow> transform \<Rightarrow> transform \<Rightarrow> (kind \<times> prim option interpolation) option" where
  "animate_one clock singleTransform singleRefTransform =
    (if perspective singleTransform \<noteq> None
     then Some (Perspective, Interpolation clock
            (ToNumber (perspective singleRefTransform)) (Given (perspective singleTransform)))
     else if rotate' singleRefTransform \<noteq> None \<and> rotate' singleTransform \<noteq> None
     then Some (Rotate, Interpolation clock
            (Given (rotate' singleRefTransform)) (Given (rotate' singleTransform)))
     else if rotateX singleRefTransform \<noteq> None \<and> rotateX singleTransform \<noteq> None
     then Some (RotateX, Interpolation clock
            (Given (rotateX singleRefTransform)) (Given (rotateX singleTransform)))
     else if rotateY singleRefTransform \<noteq> None \<and> rotateY singleTransform \<noteq> None
     then Some (RotateY, Interpolation clock
            (Given (rotateY singleRefTransform)) (Given (rotateY singleTransform)))
     else if rotateZ singleRefTransform \<noteq> None \<and> rotateZ singleTransform \<noteq> None
     then Some (RotateZ, Interpolation clock
            (Given (rotateZ singleRefTransform)) (Given (rotateZ singleTransform)))
     else if scale singleTransform \<noteq> None
     then Some (Scale, Interpolation clock
            (ToNumber (scale singleRefTransform)) (Given (scale singleTransform)))
     else if scaleX singleTransform \<noteq> None
     then Some (ScaleX, Interpolation clock
            (ToNumber (scaleX singleRefTransform)) (Given (scaleX singleTransform)))
     else if scaleY singleTransform \<noteq> None
     then Some (ScaleY, Interpolation clock
            (ToNumber (scaleY singleRefTransform)) (Given (scaleY singleTransform)))
     else if scaleZ singleTransform \<noteq> None
     then Some (ScaleZ, Interpolation clock
            (ToNumber (scaleZ singleRefTransform)) (Given (scaleZ singleTransform)))
     else if skewX singleRefTransform \<noteq> None \<and> skewX singleTransform \<noteq> None
     then Some (SkewX, Interpolation clock
            (Given (skewX singleRefTransform)) (Given (skewX singleTransform)))
     else if skewY singleRefTransform \<noteq> None \<and> skewY singleTransform \<noteq> None
     then Some (SkewY, Interpolation clock
            (Given (skewY singleRefTransform)) (Given (skewY singleTransform)))
     else if translateX singleRefTransform \<noteq> None \<and> translateX singleTransform \<noteq> None
     then Some (TranslateX, Interpolation clock
            (ToNumber (translateX singleRefTransform)) (Given (translateX singleTransform)))
     else if translateY singleRefTransform \<noteq> None \<and> translateY singleTransform \<noteq> None
     then Some (TranslateY, Interpolation clock
            (ToNumber (translateY singleRefTransform)) (Given (translateY singleTransform)))
     else None)"

function animate_loop ::
  "nat \<Rightarrow> elem list \<Rightarrow> elem list \<Rightarrow> nat \<Rightarrow> (kind \<times> prim option interpolation) list
    \<Rightarrow> (kind \<times> prim option interpolation) list" where
  "animate_loop clock transforms refTransforms i animatedTransforms =
    (if i < length transforms
     then animate_loop clock transforms refTransforms (Suc i)
            (case animate_one clock (obj_view (transforms ! i)) (obj_view (refTransforms ! i)) of
               None \<Rightarrow> animatedTransforms
             | Some pushed \<Rightarrow> animatedTransforms @ [pushed])
     else animatedTransforms)"
  by pat_completeness auto
termination
  by (relation "measure (\<lambda>(clock, transforms, refTransforms, i, acc). length transforms - i)") auto

declare animate_loop.simps [simp del]

text \<open>\<^verbatim>\<open>for (const transform of transforms)\<close>: is there an entry with a matrix?\<close>

fun has_matrix :: "elem list \<Rightarrow> bool" where
  "has_matrix [] = False"
| "has_matrix (t # ts) = (if matrix (obj_view t) \<noteq> None then True else has_matrix ts)"

text \<open>
  The callback of the \<^verbatim>\<open>reduce\<close> over \<^verbatim>\<open>Object.entries(transitionStyle)\<close>. The
  accumulator is the animated style with the diagnostics raised so far; \<open>dev\<close> is the
  build flag \<^verbatim>\<open>__DEV__\<close>.
\<close>

definition animate_entry ::
  "bool \<Rightarrow> style option \<Rightarrow> nat option \<Rightarrow> animated obj \<times> diagnostic list \<Rightarrow> string \<times> jsval
    \<Rightarrow> animated obj \<times> diagnostic list" where
  "animate_entry dev previousStyle animatedValue acc entry =
    (let animatedStyle = fst acc; raised = snd acc; property = fst entry; v = snd entry;
         startValue =
           (case previousStyle of
              None \<Rightarrow> v
            | Some p \<Rightarrow> if is_nullish (get_prop p property) then v else get_prop p property)
     in case animatedValue of
          None \<Rightarrow> (set_prop property (Literal v) animatedStyle, raised)
        | Some clock \<Rightarrow>
           if strict_eq startValue v then (set_prop property (Literal v) animatedStyle, raised)
           else if typeof v = TNumber
           then (set_prop property
                   (Animated (Interpolation clock (ToNumber startValue) (Given v))) animatedStyle,
                 raised)
           else if typeof v = TString
           then (set_prop property
                   (Animated (Interpolation clock (ToString startValue) (Given v))) animatedStyle,
                 raised)
           else if property = ''transform'' \<and> isArray v
           then (let transforms = elems v; refTransforms = elems startValue in
                 if \<not> isArray startValue \<or> length transforms \<noteq> length refTransforms
                 then (set_prop property (Literal v) animatedStyle, warnMsg dev CountMismatch raised)
                 else if has_matrix transforms
                 then (set_prop property (Literal v) animatedStyle,
                       warnMsg dev MatrixNotAnimatable raised)
                 else if \<not> transformsHaveSameLengthTypesAndOrder transforms refTransforms
                 then (set_prop property (Literal v) animatedStyle,
                       warnMsg dev (TypesMismatch transforms refTransforms) raised)
                 else (set_prop property
                         (AnimatedTransforms (animate_loop clock transforms refTransforms 0 []))
                         animatedStyle,
                       raised))
           else (animatedStyle, raised))"

subsection \<open>The hook\<close>

text \<open>
  The three state cells of the hook, and the number of clocks (\<^verbatim>\<open>Animated.Value\<close>
  objects) made so far, which gives each new clock an identity of its own. The effects
  that start and stop the animation belong to the host framework and are not modelled.
\<close>

record hook_state =
  currentStyle :: "style option"
  previousStyle :: "style option"
  animatedValue :: "nat option"
  clocks :: nat

definition first_render :: "style \<Rightarrow> hook_state" where
  "first_render style =
    \<lparr>currentStyle = Some style, previousStyle = None, animatedValue = None, clocks = 0\<rparr>"

definition reserved_keys :: "string list" where
  "reserved_keys =
    [''transitionDelay'', ''transitionDuration'', ''transitionProperty'',
     ''transitionTimingFunction'']"

definition literal_style :: "style \<Rightarrow> animated obj" where
  "literal_style style = map (\<lambda>entry. (fst entry, Literal (snd entry))) style"

definition object_assign :: "'v obj \<Rightarrow> 'v obj \<Rightarrow> 'v obj" where
  "object_assign target source = foldl (\<lambda>t entry. set_prop (fst entry) (snd entry) t) target source"

text \<open>
  One call of \<^verbatim>\<open>useStyleTransition\<close>: the style it returns, the diagnostics it raises and
  the state cells after the call.
\<close>

definition useStyleTransition ::
  "bool \<Rightarrow> hook_state \<Rightarrow> style \<Rightarrow> animated obj \<times> diagnostic list \<times> hook_state" where
  "useStyleTransition dev st style =
    (let styleWithAnimations = filter (\<lambda>entry. fst entry \<notin> set reserved_keys) style in
     if transitionStyleHasChanged (transitionStyle style) (currentStyle st)
     then (literal_style style, [],
           st\<lparr>currentStyle := Some style, previousStyle := currentStyle st,
              animatedValue := Some (clocks st), clocks := Suc (clocks st)\<rparr>)
     else (case transitionStyle style of
             None \<Rightarrow> (literal_style style, [], st)
           | Some ts \<Rightarrow>
              (let result = foldl (animate_entry dev (previousStyle st) (animatedValue st)) ([], []) ts
               in (object_assign (literal_style styleWithAnimations) (fst result),
                   snd result, st))))"

subsection \<open>Predicates used to state the properties\<close>

text \<open>
  A transform stack is free of not-a-number when no magnitude of a compared kind is
  \<^verbatim>\<open>NaN\<close>; a style is, when none of its property values is \<^verbatim>\<open>NaN\<close> or a stack
  holding one.
\<close>

definition nan_free :: "elem list \<Rightarrow> bool" where
  "nan_free a = list_all (\<lambda>e. list_all (\<lambda>k. fld k (obj_view e) \<noteq> Some (PNum NaN)) kinds) a"

fun val_nan_free :: "jsval \<Rightarrow> bool" where
  "val_nan_free (VNum n) = (n \<noteq> NaN)"
| "val_nan_free (VArr r xs) = nan_free xs"
| "val_nan_free _ = True"

definition style_nan_free :: "style \<Rightarrow> bool" where
  "style_nan_free s = list_all (\<lambda>k. val_nan_free (get_prop s k)) (map fst s)"

text \<open>
  An entry with exactly one of the thirteen compared kinds, which is what the module expects
  of a transform stack.
\<close>

definition one_kind :: "elem \<Rightarrow> bool" where
  "one_kind e =
    list_ex (\<lambda>k. fld k (obj_view e) \<noteq> None \<and>
                 list_all (\<lambda>k'. fld k' (obj_view e) = None \<or> k' = k) kinds) kinds"

text \<open>
  Splitting and trimming, in the words of the specification: \<open>join sep pieces\<close> puts the
  separator between the pieces; \<open>stripped p t\<close> says that \<open>t\<close> is \<open>p\<close> without the white
  space at its two ends; \<open>transitioning style\<close> is the set of transitioning properties.
\<close>

fun join :: "string \<Rightarrow> string list \<Rightarrow> string" where
  "join sep [] = []"
| "join sep [p] = p"
| "join sep (p # q # ps) = p @ sep @ join sep (q # ps)"

definition stripped :: "string \<Rightarrow> string \<Rightarrow> bool" where
  "stripped p t =
    (\<exists>l r. p = l @ t @ r \<and> list_all is_space l \<and> list_all is_space r \<and>
           (t = [] \<or> (\<not> is_space (hd t) \<and> \<not> is_space (last t))))"

definition transitioning :: "style \<Rightarrow> string set" where
  "transitioning style = (case transitionStyle style of None \<Rightarrow> {} | Some ts \<Rightarrow> fst ` set ts)"

text \<open>
  The decomposition of a transform pair, in the words of the specification: for each index,
  the first kind of the fixed priority order that is present in the entry, interpolated
  from the reference entry's magnitude to the entry's; the other kinds are dropped. The
  kinds of \<open>to_number_kind\<close> are those whose reference magnitude the engine coerces with
  unary \<^verbatim>\<open>+\<close>.
\<close>

definition first_present_kind :: "transform \<Rightarrow> kind option" where
  "first_present_kind t = find (\<lambda>k. fld k t \<noteq> None) kinds"

fun to_number_kind :: "kind \<Rightarrow> bool" where
  "to_number_kind Perspective = True"
| "to_number_kind Scale = True"
| "to_number_kind ScaleX = True"
| "to_number_kind ScaleY = True"
| "to_number_kind ScaleZ = True"
| "to_number_kind TranslateX = True"
| "to_number_kind TranslateY = True"
| "to_number_kind _ = False"

definition decompose_entry ::
  "nat \<Rightarrow> transform \<Rightarrow> transform \<Rightarrow> (kind \<times> prim option interpolation) option" where
  "decompose_entry clock t r =
    map_option
      (\<lambda>k. (k, Interpolation clock
                 (if to_number_kind k then ToNumber (fld k r) else Given (fld k r))
                 (Given (fld k t))))
      (first_present_kind t)"

definition decompose ::
  "nat \<Rightarrow> elem list \<Rightarrow> elem list \<Rightarrow> (kind \<times> prim option interpolation) list" where
  "decompose clock transforms refTransforms =
    List.map_filter
      (\<lambda>i. decompose_entry clock (obj_view (transforms ! i)) (obj_view (refTransforms ! i)))
      [0..<length transforms]"

section \<open>Properties\<close>

subsection \<open>The two comparisons, index by index and kind by kind\<close>

lemma num_strict_eq_refl: "num_strict_eq x x \<longleftrightarrow> x \<noteq> NaN"
  by (simp add: num_strict_eq_def)

lemma set_kinds: "k \<in> set kinds"
  by (cases k) (simp_all add: kinds_def)

lemma ex_kind: "(\<exists>k. P k) \<longleftrightarrow> list_ex P kinds"
  using set_kinds by (auto simp: list_ex_iff)

lemma all_kind: "(\<forall>k. P k) \<longleftrightarrow> list_all P kinds"
  using set_kinds by (auto simp: list_all_iff)

lemma types_mismatch_iff:
  "types_mismatch tA tB \<longleftrightarrow> (\<exists>k. fld k tA \<noteq> None \<and> fld k tB = None)"
  apply (subst ex_kind)
  apply (simp only: kinds_def list_ex_Nil_iff list_ex_Cons_iff fld.simps types_mismatch_def)
  apply (simp only: disj_assoc HOL.simp_thms)
  done

lemma values_differ_iff:
  "values_differ tA tB \<longleftrightarrow> (\<exists>k. fld_differs (fld k tA) (fld k tB))"
  apply (subst ex_kind)
  apply (simp only: kinds_def list_ex_Nil_iff list_ex_Cons_iff fld.simps values_differ_def)
  apply (simp only: disj_assoc HOL.simp_thms)
  done

lemma types_loop_iff:
  "types_loop a b i \<longleftrightarrow>
    (\<forall>j. i \<le> j \<and> j < length a \<longrightarrow> \<not> types_mismatch (obj_view (a ! j)) (obj_view (b ! j)))"
proof (induction a b i rule: types_loop.induct)
  case (1 a b i)
  show ?case
  proof (cases "i < length a")
    case False
    then show ?thesis by (subst types_loop.simps) auto
  next
    case True
    note lt = this
    show ?thesis
    proof (cases "types_mismatch (obj_view (a ! i)) (obj_view (b ! i))")
      case True
      with lt show ?thesis by (subst types_loop.simps) auto
    next
      case False
      with lt "1.IH" have "types_loop a b i \<longleftrightarrow>
        (\<forall>j. Suc i \<le> j \<and> j < length a \<longrightarrow> \<not> types_mismatch (obj_view (a ! j)) (obj_view (b ! j)))"
        by (subst types_loop.simps) simp
      also have "\<dots> \<longleftrightarrow> (\<forall>j. i \<le> j \<and> j < length a \<longrightarrow> \<not> types_mismatch (obj_view (a ! j)) (obj_view (b ! j)))"
        using False by (metis Suc_leI le_neq_implies_less Suc_leD)
      finally show ?thesis .
    qed
  qed
qed

lemma values_loop_iff:
  "values_loop a b i \<longleftrightarrow>
    (\<forall>j. i \<le> j \<and> j < length a \<longrightarrow> \<not> values_differ (obj_view (a ! j)) (obj_view (b ! j)))"
proof (induction a b i rule: values_loop.induct)
  case (1 a b i)
  show ?case
  proof (cases "i < length a")
    case False
    then show ?thesis by (subst values_loop.simps) auto
  next
    case True
    note lt = this
    show ?thesis
    proof (cases "values_differ (obj_view (a ! i)) (obj_view (b ! i))")
      case True
      with lt show ?thesis by (subst values_loop.simps) auto
    next
      case False
      with lt "1.IH" have "values_loop a b i \<longleftrightarrow>
        (\<forall>j. Suc i \<le> j \<and> j < length a \<longrightarrow> \<not> values_differ (obj_view (a ! j)) (obj_view (b ! j)))"
        by (subst values_loop.simps) simp
      also have "\<dots> \<longleftrightarrow> (\<forall>j. i \<le> j \<and> j < length a \<longrightarrow> \<not> values_differ (obj_view (a ! j)) (obj_view (b ! j)))"
        using False by (metis Suc_leI le_neq_implies_less Suc_leD)
      finally show ?thesis .
    qed
  qed
qed

lemma same_shape_iff:
  "transformsHaveSameLengthTypesAndOrder a b \<longleftrightarrow>
    length a = length b \<and>
    (\<forall>i<length a. \<forall>k. fld k (obj_view (a ! i)) \<noteq> None \<longrightarrow> fld k (obj_view (b ! i)) \<noteq> None)"
proof (cases "length a = length b")
  case False
  then show ?thesis by (simp add: transformsHaveSameLengthTypesAndOrder_def)
next
  case True
  have "types_loop a b 0 \<longleftrightarrow>
    (\<forall>j<length a. \<not> (\<exists>k. fld k (obj_view (a ! j)) \<noteq> None \<and> fld k (obj_view (b ! j)) = None))"
    unfolding types_loop_iff types_mismatch_iff by (simp only: le0 simp_thms)
  then have "types_loop a b 0 \<longleftrightarrow>
    (\<forall>i<length a. \<forall>k. fld k (obj_view (a ! i)) \<noteq> None \<longrightarrow> fld k (obj_view (b ! i)) \<noteq> None)"
    by (simp only: not_ex de_Morgan_conj not_not imp_conv_disj)
  with True show ?thesis
    by (simp only: transformsHaveSameLengthTypesAndOrder_def simp_thms if_False)
qed


lemma fld_differs_iff:
  "fld_differs x y \<longleftrightarrow> (\<exists>p. x = Some p \<and> (\<forall>q. y = Some q \<longrightarrow> \<not> prim_strict_eq p q))"
  by (cases x; cases y) simp_all

lemma values_loop_all:
  "values_loop a b 0 \<longleftrightarrow>
    (\<forall>i<length a. \<forall>k. \<not> fld_differs (fld k (obj_view (a ! i))) (fld k (obj_view (b ! i))))"
  unfolding values_loop_iff values_differ_iff by (simp only: le0 simp_thms not_ex)

lemma not_fld_differs_iff:
  "\<not> fld_differs x y \<longleftrightarrow> (\<forall>p. x = Some p \<longrightarrow> (\<exists>q. y = Some q \<and> prim_strict_eq p q))"
  by (cases x; cases y) simp_all

lemma lists_equal_iff:
  "transformListsAreEqual a b \<longleftrightarrow>
    length a = length b \<and>
    (\<forall>i<length a. \<forall>k p. fld k (obj_view (a ! i)) = Some p \<longrightarrow>
       (\<exists>q. fld k (obj_view (b ! i)) = Some q \<and> prim_strict_eq p q))"
  (is "?L \<longleftrightarrow> ?len \<and> ?R")
proof -
  have vals: "values_loop a b 0 \<longleftrightarrow> ?R"
    unfolding values_loop_all not_fld_differs_iff ..
  have shape: "transformsHaveSameLengthTypesAndOrder a b" if "?len" "?R"
    unfolding same_shape_iff
  proof (intro conjI allI impI)
    show "length a = length b" by (rule that(1))
  next
    fix i k
    assume "i < length a" and "fld k (obj_view (a ! i)) \<noteq> None"
    then obtain p where "fld k (obj_view (a ! i)) = Some p" by blast
    with that(2) \<open>i < length a\<close> obtain q where "fld k (obj_view (b ! i)) = Some q" by blast
    then show "fld k (obj_view (b ! i)) \<noteq> None" by simp
  qed
  show ?thesis
  proof
    assume ?L
    then have s: "transformsHaveSameLengthTypesAndOrder a b" and v: "values_loop a b 0"
      by (simp_all add: transformListsAreEqual_def split: if_splits)
    from s have len: "?len" unfolding same_shape_iff by (rule conjunct1)
    from v have "?R" by (rule iffD1[OF vals])
    with len show "?len \<and> ?R" by (rule conjI)
  next
    assume r: "?len \<and> ?R"
    then have "transformsHaveSameLengthTypesAndOrder a b" using shape by blast
    moreover from r have "?R" by (rule conjunct2)
    then have "values_loop a b 0" by (rule iffD2[OF vals])
    ultimately show ?L by (simp add: transformListsAreEqual_def)
  qed
qed

lemma prim_strict_eq_refl: "prim_strict_eq p p \<longleftrightarrow> p \<noteq> PNum NaN"
  by (cases p) (simp_all add: num_strict_eq_def)

lemma nan_free_iff:
  "nan_free a \<longleftrightarrow> (\<forall>i<length a. \<forall>k. fld k (obj_view (a ! i)) \<noteq> Some (PNum NaN))"
  unfolding nan_free_def all_kind [symmetric] by (simp only: list_all_length)

lemma lists_equal_refl: "transformListsAreEqual a a \<longleftrightarrow> nan_free a"
proof -
  have "transformListsAreEqual a a \<longleftrightarrow>
      (\<forall>i<length a. \<forall>k p. fld k (obj_view (a ! i)) = Some p \<longrightarrow> prim_strict_eq p p)"
    unfolding lists_equal_iff by simp
  also have "\<dots> \<longleftrightarrow> (\<forall>i<length a. \<forall>k. fld k (obj_view (a ! i)) \<noteq> Some (PNum NaN))"
    unfolding prim_strict_eq_refl by blast
  finally show ?thesis unfolding nan_free_iff .
qed

lemma same_shape_refl: "transformsHaveSameLengthTypesAndOrder a a"
  unfolding same_shape_iff by simp

lemma same_shape_length: "length a \<noteq> length b \<Longrightarrow> \<not> transformsHaveSameLengthTypesAndOrder a b"
  by (simp add: transformsHaveSameLengthTypesAndOrder_def)

subsection \<open>Reflexivity of the two comparisons\<close>

text \<open>
  For every transform stack \<open>a\<close>, \<^verbatim>\<open>transformsHaveSameLengthTypesAndOrder(a, a)\<close> returns
  true, and \<^verbatim>\<open>transformListsAreEqual(a, a)\<close> returns true exactly when no magnitude of a
  compared kind in \<open>a\<close> is \<^verbatim>\<open>NaN\<close>; for every pair of stacks \<open>a\<close>, \<open>b\<close> of different
  lengths, \<^verbatim>\<open>transformsHaveSameLengthTypesAndOrder(a, b)\<close> returns false.
\<close>

lemma comparisons_reflexive:
  "transformsHaveSameLengthTypesAndOrder a a \<and>
   (transformListsAreEqual a a \<longleftrightarrow> nan_free a) \<and>
   (length a \<noteq> length b \<longrightarrow> \<not> transformsHaveSameLengthTypesAndOrder a b)"
  using same_shape_refl lists_equal_refl same_shape_length by blast

text \<open>
  For instance at the stack \<^verbatim>\<open>[{rotate: '45deg'}, {scale: 2}]\<close>, and at the stacks
  \<^verbatim>\<open>[{rotate: '0deg'}]\<close> and \<^verbatim>\<open>[{rotate: '90deg'}, {scale: 2}]\<close> of different lengths.
\<close>

lemma comparisons_reflexive_example:
  "transformsHaveSameLengthTypesAndOrder
     [Op (no_fields\<lparr>rotate' := Some (PStr ''45deg'')\<rparr>), Op (no_fields\<lparr>scale := Some (PNum (Fin 2))\<rparr>)]
     [Op (no_fields\<lparr>rotate' := Some (PStr ''45deg'')\<rparr>), Op (no_fields\<lparr>scale := Some (PNum (Fin 2))\<rparr>)] \<and>
   transformListsAreEqual
     [Op (no_fields\<lparr>rotate' := Some (PStr ''45deg'')\<rparr>), Op (no_fields\<lparr>scale := Some (PNum (Fin 2))\<rparr>)]
     [Op (no_fields\<lparr>rotate' := Some (PStr ''45deg'')\<rparr>), Op (no_fields\<lparr>scale := Some (PNum (Fin 2))\<rparr>)] \<and>
   \<not> transformsHaveSameLengthTypesAndOrder
     [Op (no_fields\<lparr>rotate' := Some (PStr ''0deg'')\<rparr>)]
     [Op (no_fields\<lparr>rotate' := Some (PStr ''90deg'')\<rparr>), Op (no_fields\<lparr>scale := Some (PNum (Fin 2))\<rparr>)]"
proof -
  let ?a = "[Op (no_fields\<lparr>rotate' := Some (PStr ''45deg'')\<rparr>), Op (no_fields\<lparr>scale := Some (PNum (Fin 2))\<rparr>)]"
  let ?c = "[Op (no_fields\<lparr>rotate' := Some (PStr ''0deg'')\<rparr>)]"
  let ?d = "[Op (no_fields\<lparr>rotate' := Some (PStr ''90deg'')\<rparr>), Op (no_fields\<lparr>scale := Some (PNum (Fin 2))\<rparr>)]"
  have nf: "nan_free ?a"
    by (simp add: nan_free_def kinds_def no_fields_def)
  have len: "length ?c \<noteq> length ?d" by simp
  from comparisons_reflexive [of ?a ?d] nf
  have "transformsHaveSameLengthTypesAndOrder ?a ?a" and "transformListsAreEqual ?a ?a"
    by blast+
  moreover from comparisons_reflexive [of ?c ?d] len
  have "\<not> transformsHaveSameLengthTypesAndOrder ?c ?d" by blast
  ultimately show ?thesis by blast
qed

text \<open>
  Claim C9, at the stack \<^verbatim>\<open>a = [{scale: NaN}]\<close>: the claim says that
  \<^verbatim>\<open>transformListsAreEqual(a, a)\<close> returns true, as
  \<^verbatim>\<open>transformsHaveSameLengthTypesAndOrder(a, a)\<close> does; it returns false, because the test
  \<^verbatim>\<open>tA.scale !== tB.scale\<close> holds of \<^verbatim>\<open>NaN\<close> and itself.
\<close>

theorem valuesEqual_irreflexive_at_NaN:
  "transformsHaveSameLengthTypesAndOrder
       [Op (no_fields\<lparr>scale := Some (PNum NaN)\<rparr>)] [Op (no_fields\<lparr>scale := Some (PNum NaN)\<rparr>)] \<and>
   \<not> transformListsAreEqual
       [Op (no_fields\<lparr>scale := Some (PNum NaN)\<rparr>)] [Op (no_fields\<lparr>scale := Some (PNum NaN)\<rparr>)]"
  by (simp add: transformListsAreEqual_def transformsHaveSameLengthTypesAndOrder_def
        types_loop.simps values_loop.simps types_mismatch_def values_differ_def no_fields_def
        num_strict_eq_def)


subsection \<open>What the value comparison decides\<close>

text \<open>
  Claim C2, as amended. For every pair of transform lists \<open>a\<close>, \<open>b\<close>,
  \<^verbatim>\<open>transformListsAreEqual(a, b)\<close> returns true exactly when the lists have the same length
  and, at every index, every compared kind (each of the thirteen kinds other than
  \<^verbatim>\<open>matrix\<close>) present in \<open>a[i]\<close> is present in \<open>b[i]\<close> with an identical (\<^verbatim>\<open>===\<close>)
  value; so it returns false whenever a compared kind present in \<open>a[i]\<close> is absent from
  \<open>b[i]\<close> or has a value there that is not identical. A kind present only in \<open>b[i]\<close> is
  not examined, and \<^verbatim>\<open>matrix\<close> is examined on neither side. It returns true only if
  \<^verbatim>\<open>transformsHaveSameLengthTypesAndOrder(a, b)\<close> holds.
\<close>

theorem transformListsAreEqual_characterised:
  "(transformListsAreEqual a b \<longleftrightarrow>
      length a = length b \<and>
      (\<forall>i<length a. \<forall>k p. fld k (obj_view (a ! i)) = Some p \<longrightarrow>
         (\<exists>q. fld k (obj_view (b ! i)) = Some q \<and> prim_strict_eq p q))) \<and>
   (transformListsAreEqual a b \<longrightarrow> transformsHaveSameLengthTypesAndOrder a b)"
proof (rule conjI)
  show "transformListsAreEqual a b \<longleftrightarrow>
      length a = length b \<and>
      (\<forall>i<length a. \<forall>k p. fld k (obj_view (a ! i)) = Some p \<longrightarrow>
         (\<exists>q. fld k (obj_view (b ! i)) = Some q \<and> prim_strict_eq p q))"
    by (rule lists_equal_iff)
  show "transformListsAreEqual a b \<longrightarrow> transformsHaveSameLengthTypesAndOrder a b"
    by (simp add: transformListsAreEqual_def)
qed

text \<open>
  The theorem at three pairs: \<^verbatim>\<open>[{rotate: '45deg'}]\<close> with itself,
  \<^verbatim>\<open>[{rotate: '0deg'}]\<close> with \<^verbatim>\<open>[{rotate: '90deg'}]\<close>, and \<^verbatim>\<open>[{rotate: '0deg'}]\<close>
  with \<^verbatim>\<open>[{scale: 2}]\<close>.
\<close>

theorem transformListsAreEqual_characterised_witness:
  "transformListsAreEqual
     [Op (no_fields\<lparr>rotate' := Some (PStr ''45deg'')\<rparr>)] [Op (no_fields\<lparr>rotate' := Some (PStr ''45deg'')\<rparr>)] \<and>
   \<not> transformListsAreEqual
     [Op (no_fields\<lparr>rotate' := Some (PStr ''0deg'')\<rparr>)] [Op (no_fields\<lparr>rotate' := Some (PStr ''90deg'')\<rparr>)] \<and>
   \<not> transformListsAreEqual
     [Op (no_fields\<lparr>rotate' := Some (PStr ''0deg'')\<rparr>)] [Op (no_fields\<lparr>scale := Some (PNum (Fin 2))\<rparr>)]"
proof -
  let ?a = "[Op (no_fields\<lparr>rotate' := Some (PStr ''45deg'')\<rparr>)]"
  let ?c = "[Op (no_fields\<lparr>rotate' := Some (PStr ''0deg'')\<rparr>)]"
  let ?d = "[Op (no_fields\<lparr>rotate' := Some (PStr ''90deg'')\<rparr>)]"
  let ?e = "[Op (no_fields\<lparr>scale := Some (PNum (Fin 2))\<rparr>)]"
  have "\<exists>q. fld k (obj_view (?a ! i)) = Some q \<and> prim_strict_eq p q"
    if "i < length ?a" "fld k (obj_view (?a ! i)) = Some p" for i k p
    using that by (cases k) (auto simp: no_fields_def)
  then have 1: "transformListsAreEqual ?a ?a"
    using transformListsAreEqual_characterised [of ?a ?a] by blast
  have 2: "\<not> transformListsAreEqual ?c ?d"
  proof
    assume "transformListsAreEqual ?c ?d"
    then have "\<forall>i<length ?c. \<forall>k p. fld k (obj_view (?c ! i)) = Some p \<longrightarrow>
         (\<exists>q. fld k (obj_view (?d ! i)) = Some q \<and> prim_strict_eq p q)"
      using transformListsAreEqual_characterised [of ?c ?d] by blast
    from this [rule_format, of 0 Rotate "PStr ''0deg''"] show False
      by (simp add: no_fields_def)
  qed
  have 3: "\<not> transformListsAreEqual ?c ?e"
  proof
    assume "transformListsAreEqual ?c ?e"
    then have "\<forall>i<length ?c. \<forall>k p. fld k (obj_view (?c ! i)) = Some p \<longrightarrow>
         (\<exists>q. fld k (obj_view (?e ! i)) = Some q \<and> prim_strict_eq p q)"
      using transformListsAreEqual_characterised [of ?c ?e] by blast
    from this [rule_format, of 0 Rotate "PStr ''0deg''"] show False
      by (simp add: no_fields_def)
  qed
  from 1 2 3 show ?thesis by blast
qed

lemmas run_comparisons =
  transformListsAreEqual_def transformsHaveSameLengthTypesAndOrder_def
  types_loop.simps values_loop.simps types_mismatch_def values_differ_def no_fields_def
  num_strict_eq_def

text \<open>
  The claim as it was stated fails at \<^verbatim>\<open>a = [{rotate: '0deg'}]\<close> and
  \<^verbatim>\<open>b = [{rotate: '0deg', scale: 2}]\<close>: the kind \<^verbatim>\<open>scale\<close> is present in \<open>b[0]\<close> and
  not in \<open>a[0]\<close>, and the comparison returns true.
\<close>

theorem valuesEqual_one_directional_counterexample:
  "fld Scale (obj_view ([Op (no_fields\<lparr>rotate' := Some (PStr ''0deg''), scale := Some (PNum (Fin 2))\<rparr>)] ! 0)) \<noteq> None \<and>
   fld Scale (obj_view ([Op (no_fields\<lparr>rotate' := Some (PStr ''0deg'')\<rparr>)] ! 0)) = None \<and>
   transformListsAreEqual
     [Op (no_fields\<lparr>rotate' := Some (PStr ''0deg'')\<rparr>)]
     [Op (no_fields\<lparr>rotate' := Some (PStr ''0deg''), scale := Some (PNum (Fin 2))\<rparr>)]"
  by (simp add: run_comparisons)

subsection \<open>The differ on one snapshot\<close>

lemma strict_eq_refl: "strict_eq v v \<longleftrightarrow> v \<noteq> VNum NaN"
  by (cases v) (simp_all add: num_strict_eq_def)

lemma changed_loop_iff:
  "changed_loop n p ks \<longleftrightarrow>
    (\<exists>k\<in>set ks.
       typeof (get_prop p k) \<noteq> typeof (get_prop n k) \<or>
       (isArray (get_prop p k) \<and> isArray (get_prop n k) \<and>
        \<not> transformListsAreEqual (elems (get_prop p k)) (elems (get_prop n k))) \<or>
       \<not> strict_eq (get_prop p k) (get_prop n k))"
  by (induction ks) (auto simp: Let_def)

lemma key_unchanged_refl:
  "(isArray v \<and> \<not> transformListsAreEqual (elems v) (elems v)) \<or> \<not> strict_eq v v
     \<longleftrightarrow> \<not> val_nan_free v"
  by (cases v) (simp_all add: lists_equal_refl num_strict_eq_def)

lemma changed_loop_refl:
  "changed_loop s s ks \<longleftrightarrow> (\<exists>k\<in>set ks. \<not> val_nan_free (get_prop s k))"
  unfolding changed_loop_iff using key_unchanged_refl by simp

text \<open>
  For every style snapshot \<open>S\<close>, \<^verbatim>\<open>transitionStyleHasChanged(S, S)\<close> returns false, unless a
  property of \<open>S\<close> is \<^verbatim>\<open>NaN\<close> or a transform stack with a \<^verbatim>\<open>NaN\<close> magnitude of a
  compared kind: then it returns true.
\<close>

lemma hasChanged_same_snapshot:
  "transitionStyleHasChanged S S = (case S of None \<Rightarrow> False | Some s \<Rightarrow> \<not> style_nan_free s)"
  by (cases S)
     (simp_all add: transitionStyleHasChanged_def changed_loop_refl style_nan_free_def
        list_all_iff)

text \<open>
  For instance at the snapshot
  \<^verbatim>\<open>{opacity: 1, color: 'red', transform: [{scaleX: 2}]}\<close> and at \<^verbatim>\<open>undefined\<close>.
\<close>

lemma hasChanged_same_snapshot_example:
  "\<not> transitionStyleHasChanged
       (Some [(''opacity'', VNum (Fin 1)), (''color'', VStr ''red''),
              (''transform'', VArr 0 [Op (no_fields\<lparr>scaleX := Some (PNum (Fin 2))\<rparr>)])])
       (Some [(''opacity'', VNum (Fin 1)), (''color'', VStr ''red''),
              (''transform'', VArr 0 [Op (no_fields\<lparr>scaleX := Some (PNum (Fin 2))\<rparr>)])]) \<and>
   \<not> transitionStyleHasChanged None None"
proof -
  let ?s = "[(''opacity'', VNum (Fin 1)), (''color'', VStr ''red''),
              (''transform'', VArr 0 [Op (no_fields\<lparr>scaleX := Some (PNum (Fin 2))\<rparr>)])]"
  have "style_nan_free ?s"
    by (simp add: style_nan_free_def get_prop_def nan_free_def kinds_def no_fields_def)
  then have "\<not> transitionStyleHasChanged (Some ?s) (Some ?s)"
    using hasChanged_same_snapshot [of "Some ?s"] by simp
  moreover have "\<not> transitionStyleHasChanged None None"
    using hasChanged_same_snapshot [of None] by simp
  ultimately show ?thesis by blast
qed

text \<open>
  Claim C8, at the snapshot \<^verbatim>\<open>S = {opacity: NaN}\<close>: the claim says that
  \<^verbatim>\<open>transitionStyleHasChanged(S, S)\<close> returns false; it returns true, because the test
  \<^verbatim>\<open>prevValue !== nextValue\<close> holds of \<^verbatim>\<open>NaN\<close> and itself.
\<close>

theorem hasChanged_same_snapshot_at_NaN:
  "transitionStyleHasChanged (Some [(''opacity'', VNum NaN)]) (Some [(''opacity'', VNum NaN)])"
  by (simp add: transitionStyleHasChanged_def get_prop_def num_strict_eq_def)

subsection \<open>The matrix kind\<close>

text \<open>
  Neither comparison reads the field \<^verbatim>\<open>matrix\<close>: two lists that agree on the thirteen
  compared kinds pass both. The differ, though, goes on to its last test,
  \<^verbatim>\<open>prevValue !== nextValue\<close>, which compares two arrays by identity.
\<close>

lemma matrix_never_inspected:
  assumes "length a = length b"
    and "\<And>i k. i < length a \<Longrightarrow>
           (fld k (obj_view (a ! i)) = None \<and> fld k (obj_view (b ! i)) = None) \<or>
           (\<exists>p q. fld k (obj_view (a ! i)) = Some p \<and> fld k (obj_view (b ! i)) = Some q \<and>
                  prim_strict_eq p q)"
  shows "transformsHaveSameLengthTypesAndOrder a b \<and> transformListsAreEqual a b"
proof -
  have "\<exists>q. fld k (obj_view (b ! i)) = Some q \<and> prim_strict_eq p q"
    if "i < length a" "fld k (obj_view (a ! i)) = Some p" for i k p
    using assms(2) [OF that(1), of k] that(2) by auto
  with assms(1) have "transformListsAreEqual a b"
    unfolding lists_equal_iff by blast
  then show ?thesis by (simp add: transformListsAreEqual_def split: if_splits)
qed

text \<open>
  On stacks whose entries each carry exactly one compared kind, the value comparison is
  symmetric: it holds exactly when the two stacks have the same kinds, index by index, with
  identical values.
\<close>

lemma one_kind_iff:
  "one_kind e \<longleftrightarrow>
    (\<exists>k. fld k (obj_view e) \<noteq> None \<and> (\<forall>k'. fld k' (obj_view e) = None \<or> k' = k))"
  unfolding one_kind_def ex_kind [symmetric] all_kind [symmetric] ..

lemma lists_equal_one_kind:
  assumes "list_all one_kind a" and "list_all one_kind b"
  shows "transformListsAreEqual a b \<longleftrightarrow>
    length a = length b \<and>
    (\<forall>i<length a. \<forall>k.
       (fld k (obj_view (a ! i)) = None \<and> fld k (obj_view (b ! i)) = None) \<or>
       (\<exists>p q. fld k (obj_view (a ! i)) = Some p \<and> fld k (obj_view (b ! i)) = Some q \<and>
              prim_strict_eq p q))"
  (is "?L \<longleftrightarrow> ?len \<and> ?R")
proof
  assume "?len \<and> ?R"
  then show ?L using matrix_never_inspected [of a b] by blast
next
  assume l: ?L
  then have len: ?len and one: "\<forall>i<length a. \<forall>k p. fld k (obj_view (a ! i)) = Some p \<longrightarrow>
       (\<exists>q. fld k (obj_view (b ! i)) = Some q \<and> prim_strict_eq p q)"
    unfolding lists_equal_iff by blast+
  have "(fld k (obj_view (a ! i)) = None \<and> fld k (obj_view (b ! i)) = None) \<or>
       (\<exists>p q. fld k (obj_view (a ! i)) = Some p \<and> fld k (obj_view (b ! i)) = Some q \<and>
              prim_strict_eq p q)" if i: "i < length a" for i k
  proof (cases "fld k (obj_view (a ! i))")
    case (Some p)
    with one i show ?thesis by blast
  next
    case None
    from assms(1) i have "one_kind (a ! i)" by (simp add: list_all_length)
    then obtain k0 p0 where k0: "fld k0 (obj_view (a ! i)) = Some p0"
      unfolding one_kind_iff by auto
    with one i obtain q0 where q0: "fld k0 (obj_view (b ! i)) = Some q0" by blast
    from assms(2) i len have "one_kind (b ! i)" by (simp add: list_all_length)
    then obtain k1 where k1: "\<forall>k'. fld k' (obj_view (b ! i)) = None \<or> k' = k1"
      unfolding one_kind_iff by auto
    with q0 have "k1 = k0" by (metis option.distinct(1))
    moreover from None k0 have "k \<noteq> k0" by auto
    ultimately have "fld k (obj_view (b ! i)) = None" using k1 by metis
    with None show ?thesis by simp
  qed
  with len show "?len \<and> ?R" by blast
qed

lemma differ_compares_arrays_by_identity:
  assumes "k \<in> fst ` set n" "get_prop n k = VArr r a" "get_prop p k = VArr r' b" "r \<noteq> r'"
  shows "transitionStyleHasChanged (Some n) (Some p)"
  unfolding transitionStyleHasChanged_def changed_loop_iff using assms by force

text \<open>
  Claim C10, at \<^verbatim>\<open>prev = {transform: [{matrix: [1, 0, 0, 1, 0, 0]}]}\<close> and
  \<^verbatim>\<open>next = {transform: [{matrix: [2, 0, 0, 2, 0, 0]}]}\<close>, two arrays that differ only in
  a matrix payload: \<^verbatim>\<open>transformsHaveSameLengthTypesAndOrder\<close> and
  \<^verbatim>\<open>transformListsAreEqual\<close> both return true, as the claim says, while
  \<^verbatim>\<open>transitionStyleHasChanged\<close> returns true, where the claim says the differ reports
  no change.
\<close>

theorem matrix_only_difference_reported:
  "transformsHaveSameLengthTypesAndOrder
     [Op (no_fields\<lparr>matrix := Some [Fin 1, Fin 0, Fin 0, Fin 1, Fin 0, Fin 0]\<rparr>)]
     [Op (no_fields\<lparr>matrix := Some [Fin 2, Fin 0, Fin 0, Fin 2, Fin 0, Fin 0]\<rparr>)] \<and>
   transformListsAreEqual
     [Op (no_fields\<lparr>matrix := Some [Fin 1, Fin 0, Fin 0, Fin 1, Fin 0, Fin 0]\<rparr>)]
     [Op (no_fields\<lparr>matrix := Some [Fin 2, Fin 0, Fin 0, Fin 2, Fin 0, Fin 0]\<rparr>)] \<and>
   transitionStyleHasChanged
     (Some [(''transform'', VArr 1 [Op (no_fields\<lparr>matrix := Some [Fin 2, Fin 0, Fin 0, Fin 2, Fin 0, Fin 0]\<rparr>)])])
     (Some [(''transform'', VArr 0 [Op (no_fields\<lparr>matrix := Some [Fin 1, Fin 0, Fin 0, Fin 1, Fin 0, Fin 0]\<rparr>)])])"
  by (simp add: run_comparisons transitionStyleHasChanged_def get_prop_def)


subsection \<open>The native driver\<close>

lemma driver_loop_iff:
  "driver_loop tp ks \<longleftrightarrow>
    (\<forall>k\<in>set ks. k = ''opacity'' \<or>
       (k = ''transform'' \<and> isArray (get_prop tp k) \<and>
        \<not> includes_string ''skew'' (elems (get_prop tp k))))"
  by (induction ks) (auto simp: Let_def)

text \<open>
  The test \<^verbatim>\<open>!value.includes('skew')\<close> looks for the string \<^verbatim>\<open>'skew'\<close> among the
  elements of the array. The elements of a transform stack are objects, so the test holds of
  every stack, with or without skew operations.
\<close>

lemma includes_string_objects: "list_all (\<lambda>e. \<exists>t. e = Op t) xs \<Longrightarrow> \<not> includes_string s xs"
  by (auto simp: includes_string_def list_all_iff)

lemma canUseNativeDriver_stack:
  "list_all (\<lambda>e. \<exists>t. e = Op t) xs \<Longrightarrow> canUseNativeDriver (Some [(''transform'', VArr r xs)])"
  by (simp add: canUseNativeDriver_def get_prop_def includes_string_objects)

lemma canUseNativeDriver_undefined: "\<not> canUseNativeDriver None"
  by (simp add: canUseNativeDriver_def)

text \<open>
  The scenarios of the specification: a skew-free transform with \<^verbatim>\<open>transitionProperty: 'all'\<close>
  and an opacity transition are eligible; a style without \<^verbatim>\<open>transitionProperty\<close> is not.
\<close>

lemma native_driver_scenario:
  "shouldUseNativeDriver
     (metadata [(''transitionProperty'', VStr ''all''),
                (''transform'', VArr 0 [Op (no_fields\<lparr>scaleX := Some (PNum (Fin 2))\<rparr>)])]) \<and>
   shouldUseNativeDriver
     (metadata [(''transitionProperty'', VStr ''opacity''), (''transitionDuration'', VNum (Fin 300)),
                (''opacity'', VNum (Fin 1))]) \<and>
   \<not> shouldUseNativeDriver (metadata [(''opacity'', VNum (Fin 1))])"
  by (simp add: metadata_def transitionStyle_def transition_step_def get_prop_def
        canUseNativeDriver_def includes_string_def trim_def is_space_def)

text \<open>
  Claim C1, at the transitionable subset \<^verbatim>\<open>{transform: [{skewX: '10deg'}]}\<close>: the stack
  holds a \<^verbatim>\<open>skewX\<close> operation, so the claim says \<^verbatim>\<open>canUseNativeDriver\<close> returns false;
  it returns true.
\<close>

theorem canUseNativeDriver_skew_stack:
  "canUseNativeDriver
     (Some [(''transform'', VArr 0 [Op (no_fields\<lparr>skewX := Some (PStr ''10deg'')\<rparr>)])])"
  by (simp add: canUseNativeDriver_def get_prop_def includes_string_def)

subsection \<open>Splitting and trimming\<close>

lemma split_on_not_Nil: "split_on sep s \<noteq> []"
  by (induction sep s rule: split_on.induct) (auto split: list.splits)

lemma join_Cons: "ps \<noteq> [] \<Longrightarrow> join sep (p # ps) = p @ sep @ join sep ps"
  by (cases ps) simp_all

lemma join_Cons_Cons: "join sep ((c # p) # ps) = c # join sep (p # ps)"
  by (cases ps) simp_all

lemma join_split_on: "sep \<noteq> [] \<Longrightarrow> join sep (split_on sep s) = s"
proof (induction sep s rule: split_on.induct)
  case (1 sep)
  then show ?case by simp
next
  case (2 sep c cs)
  show ?case
  proof (cases "take (length sep) (c # cs) = sep")
    case True
    let ?rest = "drop (length sep - 1) cs"
    have d: "drop (length sep) (c # cs) = ?rest"
      using "2.prems" by (cases sep) simp_all
    from True "2.prems" have "join sep (split_on sep (c # cs)) = sep @ join sep (split_on sep ?rest)"
      by (simp add: join_Cons split_on_not_Nil)
    also have "\<dots> = sep @ ?rest"
      using "2.IH"(1) True "2.prems" by simp
    also have "\<dots> = take (length sep) (c # cs) @ drop (length sep) (c # cs)"
      using True d by simp
    finally show ?thesis by (simp only: append_take_drop_id)
  next
    case False
    obtain piece pieces where sp: "split_on sep cs = piece # pieces"
      using split_on_not_Nil [of sep cs] by (cases "split_on sep cs") auto
    with False "2.IH"(2) "2.prems" have "join sep (piece # pieces) = cs" by simp
    with False sp show ?thesis by (simp add: join_Cons_Cons)
  qed
qed

lemma split_on_char_free: "p \<in> set (split_on [x] s) \<Longrightarrow> x \<notin> set p"
proof (induction "[x]" s arbitrary: p rule: split_on.induct)
  case 1
  then show ?case by simp
next
  case (2 c cs)
  show ?case
  proof (cases "c = x")
    case True
    with 2 show ?thesis by auto
  next
    case False
    obtain piece pieces where sp: "split_on [x] cs = piece # pieces"
      using split_on_not_Nil [of "[x]" cs] by (cases "split_on [x] cs") auto
    with False 2 show ?thesis by auto
  qed
qed

lemma stripped_trim: "stripped p (trim p)"
proof -
  let ?d = "dropWhile is_space p"
  let ?l = "takeWhile is_space p"
  let ?r = "rev (takeWhile is_space (rev ?d))"
  have d: "?d = trim p @ ?r"
  proof -
    have "trim p @ ?r = rev (takeWhile is_space (rev ?d) @ dropWhile is_space (rev ?d))"
      unfolding trim_def by (simp only: rev_append)
    also have "\<dots> = rev (rev ?d)" by (simp only: takeWhile_dropWhile_id)
    finally show ?thesis by simp
  qed
  have "p = ?l @ ?d" by simp
  with d have p: "p = ?l @ trim p @ ?r" by simp
  have l: "list_all is_space ?l"
    by (simp add: list_all_iff) (meson set_takeWhileD)
  have r: "list_all is_space ?r"
    by (simp add: list_all_iff) (meson set_takeWhileD)
  have ends: "\<not> is_space (hd (trim p)) \<and> \<not> is_space (last (trim p))" if ne: "trim p \<noteq> []"
  proof
    from ne have "dropWhile is_space (rev ?d) \<noteq> []" by (simp add: trim_def)
    then have "\<not> is_space (hd (dropWhile is_space (rev ?d)))" by (rule hd_dropWhile)
    moreover have "last (trim p) = hd (dropWhile is_space (rev ?d))"
      using ne by (simp add: trim_def last_rev)
    ultimately show "\<not> is_space (last (trim p))" by simp
    from ne d have dne: "?d \<noteq> []" by (metis Nil_is_append_conv)
    then have "\<not> is_space (hd ?d)" by (rule hd_dropWhile)
    moreover from d ne have "hd ?d = hd (trim p)" by (metis hd_append2)
    ultimately show "\<not> is_space (hd (trim p))" by simp
  qed
  show ?thesis
    unfolding stripped_def using p l r ends by blast
qed

lemma split_on_two_pieces:
  "sep \<noteq> [] \<Longrightarrow> 2 \<le> length (split_on sep s) \<longleftrightarrow> str_includes sep s"
proof (induction sep s rule: split_on.induct)
  case (1 sep)
  then show ?case by simp
next
  case (2 sep c cs)
  show ?case
  proof (cases "take (length sep) (c # cs) = sep")
    case True
    with "2.prems" split_on_not_Nil [of sep "drop (length sep - 1) cs"] show ?thesis
      by (cases "split_on sep (drop (length sep - 1) cs)") simp_all
  next
    case False
    with 2 split_on_not_Nil [of sep cs] show ?thesis
      by (cases "split_on sep cs") simp_all
  qed
qed

subsection \<open>The easing function\<close>

text \<open>
  On a string that contains \<^verbatim>\<open>cubic-bezier\<close> but not \<^verbatim>\<open>cubic-bezier(\<close>, the guard
  passes and the \<^verbatim>\<open>split\<close> has no second piece: \<^verbatim>\<open>getEasingFunction\<close> raises a
  \<^verbatim>\<open>TypeError\<close>. On a string that contains \<^verbatim>\<open>cubic-bezier(\<close> it returns, or raises,
  what \<^verbatim>\<open>Easing.bezier\<close> does on the parsed points. On any other string but the four
  names it returns the linear curve.
\<close>

lemma split_on_pieces:
  "(\<exists>first chunk rest. split_on ''cubic-bezier('' s = first # chunk # rest)
      \<longleftrightarrow> str_includes ''cubic-bezier('' s"
proof -
  have "2 \<le> length (split_on ''cubic-bezier('' s) \<longleftrightarrow> str_includes ''cubic-bezier('' s"
    by (rule split_on_two_pieces) simp
  then show ?thesis
    by (cases "split_on ''cubic-bezier('' s" rule: list.exhaust [case_names Nil Cons];
        cases "tl (split_on ''cubic-bezier('' s)") auto
qed

lemma named_without_bezier:
  "s = ''ease'' \<or> s = ''ease-in'' \<or> s = ''ease-out'' \<or> s = ''ease-in-out'' \<Longrightarrow>
    \<not> str_includes ''cubic-bezier'' s \<and> \<not> str_includes ''cubic-bezier('' s"
  by auto

lemma getEasingFunction_split_raises:
  assumes "str_includes ''cubic-bezier'' s" and "\<not> str_includes ''cubic-bezier('' s"
  shows "getEasingFunction parseFloat bezier (Some s) = Inl TypeError"
  using assms named_without_bezier [of s] split_on_pieces [of s]
  by (auto simp: getEasingFunction_def Let_def split: list.splits)

lemma getEasingFunction_bezier:
  assumes "str_includes ''cubic-bezier'' s" and "str_includes ''cubic-bezier('' s"
  shows "\<exists>curve. getEasingFunction parseFloat bezier (Some s) = bezier curve"
  using assms named_without_bezier [of s] split_on_pieces [of s]
  by (auto simp: getEasingFunction_def Let_def split: list.splits)

lemma getEasingFunction_linear:
  "\<not> str_includes ''cubic-bezier'' s \<Longrightarrow>
    s \<notin> {''ease'', ''ease-in'', ''ease-out'', ''ease-in-out''} \<Longrightarrow>
    getEasingFunction parseFloat bezier (Some s) = Inr EasingLinear"
  by (simp add: getEasingFunction_def)

lemma getEasingFunction_parses:
  "getEasingFunction parseFloat bezier (Some ''cubic-bezier(0.42, 0, 1, 1)'') =
     bezier [parseFloat ''0.42'', parseFloat ''0'', parseFloat ''1'', parseFloat ''1'']"
  by (simp add: getEasingFunction_def trim_def is_space_def)

text \<open>
  Claim C3, at the input \<^verbatim>\<open>'cubic-bezier'\<close>: the string is none of the five recognised
  forms, so the claim says \<^verbatim>\<open>getEasingFunction\<close> returns the linear curve without
  raising; it raises a \<^verbatim>\<open>TypeError\<close>.
\<close>

theorem getEasingFunction_raises:
  "getEasingFunction parseFloat bezier (Some ''cubic-bezier'') = Inl TypeError"
  by (simp add: getEasingFunction_def)

subsection \<open>The transitioning properties\<close>

text \<open>
  Claim C6. \<^verbatim>\<open>getTransitionProperties\<close> maps the string \<^verbatim>\<open>'all'\<close> to the names
  \<^verbatim>\<open>opacity\<close> and \<^verbatim>\<open>transform\<close>; it maps any other string to the names obtained by
  splitting it at its commas (the pieces hold no comma and, joined by commas, give the string
  back) and removing the white space at both ends of each piece; it maps any input that is
  not a string to \<^verbatim>\<open>null\<close>, and the hook then has no transitionable subset: the set of
  transitioning properties is empty, and no error is raised.
\<close>

theorem getTransitionProperties_resolution:
  "getTransitionProperties (VStr ''all'') = Some [''opacity'', ''transform''] \<and>
   (s \<noteq> ''all'' \<longrightarrow>
      (\<exists>pieces. join '','' pieces = s \<and> pieces \<noteq> [] \<and>
         (\<forall>p\<in>set pieces. CHR '','' \<notin> set p \<and> stripped p (trim p)) \<and>
         getTransitionProperties (VStr s) = Some (map trim pieces))) \<and>
   (\<not> isString v \<longrightarrow> getTransitionProperties v = None) \<and>
   (\<not> isString (get_prop style ''transitionProperty'') \<longrightarrow>
      transitionStyle style = None \<and> transitioning style = {})"
proof (intro conjI impI)
  show "getTransitionProperties (VStr ''all'') = Some [''opacity'', ''transform'']"
    by simp
next
  assume "s \<noteq> ''all''"
  then have "getTransitionProperties (VStr s) = Some (map trim (split_on '','' s))"
    by simp
  moreover have "join '','' (split_on '','' s) = s"
    by (rule join_split_on) simp
  moreover have "\<forall>p\<in>set (split_on '','' s). CHR '','' \<notin> set p \<and> stripped p (trim p)"
    using split_on_char_free [of _ "CHR '',''" s] stripped_trim by blast
  ultimately show "\<exists>pieces. join '','' pieces = s \<and> pieces \<noteq> [] \<and>
         (\<forall>p\<in>set pieces. CHR '','' \<notin> set p \<and> stripped p (trim p)) \<and>
         getTransitionProperties (VStr s) = Some (map trim pieces)"
    using split_on_not_Nil by blast
next
  assume "\<not> isString v"
  then show "getTransitionProperties v = None" by (cases v) simp_all
next
  assume n: "\<not> isString (get_prop style ''transitionProperty'')"
  then have "getTransitionProperties (get_prop style ''transitionProperty'') = None"
    by (cases "get_prop style ''transitionProperty''") simp_all
  then show "transitionStyle style = None" by (simp add: transitionStyle_def)
  then show "transitioning style = {}" by (simp add: transitioning_def)
qed

text \<open>
  The theorem at the string \<^verbatim>\<open>'opacity, transform'\<close>, at the input \<^verbatim>\<open>undefined\<close> and at
  the style \<^verbatim>\<open>{opacity: 1}\<close>, which has no \<^verbatim>\<open>transitionProperty\<close>.
\<close>

theorem getTransitionProperties_resolution_witness:
  "getTransitionProperties (VStr ''all'') = Some [''opacity'', ''transform''] \<and>
   (\<exists>pieces. join '','' pieces = ''opacity, transform'' \<and>
      getTransitionProperties (VStr ''opacity, transform'') = Some (map trim pieces)) \<and>
   getTransitionProperties (VStr ''opacity, transform'') = Some [''opacity'', ''transform''] \<and>
   getTransitionProperties VUndefined = None \<and>
   transitioning [(''opacity'', VNum (Fin 1))] = {}"
proof -
  have 1: "''opacity, transform'' \<noteq> ''all''" by simp
  have 2: "\<not> isString VUndefined" by simp
  have 3: "\<not> isString (get_prop [(''opacity'', VNum (Fin 1))] ''transitionProperty'')"
    by (simp add: get_prop_def)
  have 4: "getTransitionProperties (VStr ''opacity, transform'') = Some [''opacity'', ''transform'']"
    by (simp add: trim_def is_space_def)
  from getTransitionProperties_resolution
         [of "''opacity, transform''" VUndefined "[(''opacity'', VNum (Fin 1))]"] 1 2 3 4
  show ?thesis by blast
qed


subsection \<open>The interpolation engine on transform stacks\<close>

lemma first_present_kind_unfold:
  "first_present_kind t =
    (if perspective t \<noteq> None then Some Perspective
     else if rotate' t \<noteq> None then Some Rotate
     else if rotateX t \<noteq> None then Some RotateX
     else if rotateY t \<noteq> None then Some RotateY
     else if rotateZ t \<noteq> None then Some RotateZ
     else if scale t \<noteq> None then Some Scale
     else if scaleX t \<noteq> None then Some ScaleX
     else if scaleY t \<noteq> None then Some ScaleY
     else if scaleZ t \<noteq> None then Some ScaleZ
     else if skewX t \<noteq> None then Some SkewX
     else if skewY t \<noteq> None then Some SkewY
     else if translateX t \<noteq> None then Some TranslateX
     else if translateY t \<noteq> None then Some TranslateY
     else None)"
  unfolding first_present_kind_def kinds_def
  by (simp only: find.simps fld.simps)

lemma no_mismatch_fld:
  "\<not> types_mismatch t r \<Longrightarrow> fld k t \<noteq> None \<Longrightarrow> fld k r \<noteq> None"
  unfolding types_mismatch_iff by (simp only: not_ex de_Morgan_conj not_not) (erule allE [of _ k], erule disjE, simp_all)

lemma animate_one_decompose:
  assumes "\<not> types_mismatch t r"
  shows "animate_one clock t r = decompose_entry clock t r"
proof -
  note m = no_mismatch_fld [OF assms]
  note r = m [of Rotate, unfolded fld.simps] m [of RotateX, unfolded fld.simps]
    m [of RotateY, unfolded fld.simps] m [of RotateZ, unfolded fld.simps]
    m [of SkewX, unfolded fld.simps] m [of SkewY, unfolded fld.simps]
    m [of TranslateX, unfolded fld.simps] m [of TranslateY, unfolded fld.simps]
  consider "perspective t \<noteq> None"
    | "perspective t = None" "rotate' t \<noteq> None"
    | "perspective t = None" "rotate' t = None" "rotateX t \<noteq> None"
    | "perspective t = None" "rotate' t = None" "rotateX t = None" "rotateY t \<noteq> None"
    | "perspective t = None" "rotate' t = None" "rotateX t = None" "rotateY t = None"
      "rotateZ t \<noteq> None"
    | "perspective t = None" "rotate' t = None" "rotateX t = None" "rotateY t = None"
      "rotateZ t = None" "scale t \<noteq> None"
    | "perspective t = None" "rotate' t = None" "rotateX t = None" "rotateY t = None"
      "rotateZ t = None" "scale t = None" "scaleX t \<noteq> None"
    | "perspective t = None" "rotate' t = None" "rotateX t = None" "rotateY t = None"
      "rotateZ t = None" "scale t = None" "scaleX t = None" "scaleY t \<noteq> None"
    | "perspective t = None" "rotate' t = None" "rotateX t = None" "rotateY t = None"
      "rotateZ t = None" "scale t = None" "scaleX t = None" "scaleY t = None" "scaleZ t \<noteq> None"
    | "perspective t = None" "rotate' t = None" "rotateX t = None" "rotateY t = None"
      "rotateZ t = None" "scale t = None" "scaleX t = None" "scaleY t = None" "scaleZ t = None"
      "skewX t \<noteq> None"
    | "perspective t = None" "rotate' t = None" "rotateX t = None" "rotateY t = None"
      "rotateZ t = None" "scale t = None" "scaleX t = None" "scaleY t = None" "scaleZ t = None"
      "skewX t = None" "skewY t \<noteq> None"
    | "perspective t = None" "rotate' t = None" "rotateX t = None" "rotateY t = None"
      "rotateZ t = None" "scale t = None" "scaleX t = None" "scaleY t = None" "scaleZ t = None"
      "skewX t = None" "skewY t = None" "translateX t \<noteq> None"
    | "perspective t = None" "rotate' t = None" "rotateX t = None" "rotateY t = None"
      "rotateZ t = None" "scale t = None" "scaleX t = None" "scaleY t = None" "scaleZ t = None"
      "skewX t = None" "skewY t = None" "translateX t = None" "translateY t \<noteq> None"
    | "perspective t = None" "rotate' t = None" "rotateX t = None" "rotateY t = None"
      "rotateZ t = None" "scale t = None" "scaleX t = None" "scaleY t = None" "scaleZ t = None"
      "skewX t = None" "skewY t = None" "translateX t = None" "translateY t = None"
    by blast
  then show ?thesis
  proof cases
    case 1 then show ?thesis
      by (simp add: animate_one_def decompose_entry_def first_present_kind_unfold)
  next
    case 2 with r show ?thesis
      by (simp add: animate_one_def decompose_entry_def first_present_kind_unfold)
  next
    case 3 with r show ?thesis
      by (simp add: animate_one_def decompose_entry_def first_present_kind_unfold)
  next
    case 4 with r show ?thesis
      by (simp add: animate_one_def decompose_entry_def first_present_kind_unfold)
  next
    case 5 with r show ?thesis
      by (simp add: animate_one_def decompose_entry_def first_present_kind_unfold)
  next
    case 6 with r show ?thesis
      by (simp add: animate_one_def decompose_entry_def first_present_kind_unfold)
  next
    case 7 with r show ?thesis
      by (simp add: animate_one_def decompose_entry_def first_present_kind_unfold)
  next
    case 8 with r show ?thesis
      by (simp add: animate_one_def decompose_entry_def first_present_kind_unfold)
  next
    case 9 with r show ?thesis
      by (simp add: animate_one_def decompose_entry_def first_present_kind_unfold)
  next
    case 10 with r show ?thesis
      by (simp add: animate_one_def decompose_entry_def first_present_kind_unfold)
  next
    case 11 with r show ?thesis
      by (simp add: animate_one_def decompose_entry_def first_present_kind_unfold)
  next
    case 12 with r show ?thesis
      by (simp add: animate_one_def decompose_entry_def first_present_kind_unfold)
  next
    case 13 with r show ?thesis
      by (simp add: animate_one_def decompose_entry_def first_present_kind_unfold)
  next
    case 14 then show ?thesis
      by (simp add: animate_one_def decompose_entry_def first_present_kind_unfold)
  qed
qed


lemma animate_loop_eq:
  "animate_loop clock ts rs i acc =
     acc @ List.map_filter (\<lambda>j. animate_one clock (obj_view (ts ! j)) (obj_view (rs ! j)))
             [i..<length ts]"
proof (induction clock ts rs i acc rule: animate_loop.induct)
  case (1 clock ts rs i acc)
  show ?case
  proof (cases "i < length ts")
    case False
    then show ?thesis by (subst animate_loop.simps) (simp add: List.map_filter_simps)
  next
    case True
    then have "[i..<length ts] = i # [Suc i..<length ts]" by (rule upt_conv_Cons)
    with True "1.IH" show ?thesis
      by (subst animate_loop.simps) (simp add: List.map_filter_simps split: option.splits)
  qed
qed

lemma types_loop_nth:
  "types_loop a b 0 \<Longrightarrow> i < length a \<Longrightarrow> \<not> types_mismatch (obj_view (a ! i)) (obj_view (b ! i))"
  unfolding types_loop_iff by simp

lemma map_filter_agree:
  "(\<And>x. x \<in> set xs \<Longrightarrow> f x = g x) \<Longrightarrow> List.map_filter f xs = List.map_filter g xs"
  by (induction xs) (simp_all add: List.map_filter_simps split: option.splits)

lemma animate_loop_decompose:
  assumes "transformsHaveSameLengthTypesAndOrder ts rs"
  shows "animate_loop clock ts rs 0 [] = decompose clock ts rs"
proof -
  from assms have loop: "types_loop ts rs 0"
    by (simp add: transformsHaveSameLengthTypesAndOrder_def split: if_splits)
  have "List.map_filter (\<lambda>j. animate_one clock (obj_view (ts ! j)) (obj_view (rs ! j))) [0..<length ts]
      = List.map_filter (\<lambda>j. decompose_entry clock (obj_view (ts ! j)) (obj_view (rs ! j))) [0..<length ts]"
    by (rule map_filter_agree) (simp add: animate_one_decompose types_loop_nth [OF loop])
  then show ?thesis
    by (simp add: animate_loop_eq decompose_def)
qed


lemma map_of_set_prop: "map_of (set_prop k v s) = (map_of s)(k \<mapsto> v)"
  by (induction s) auto

lemma same_shape_length_eq:
  "transformsHaveSameLengthTypesAndOrder a b \<Longrightarrow> length a = length b"
  by (simp add: transformsHaveSameLengthTypesAndOrder_def split: if_splits)

lemma animate_entry_None:
  "animate_entry dev prev None acc e = (set_prop (fst e) (Literal (snd e)) (fst acc), snd acc)"
  by (simp add: animate_entry_def Let_def)

lemma animate_entry_Some:
  assumes "sv = (case prev of None \<Rightarrow> snd e
                 | Some p \<Rightarrow> if is_nullish (get_prop p (fst e)) then snd e else get_prop p (fst e))"
  shows "animate_entry dev prev (Some clock) acc e =
    (if strict_eq sv (snd e) then (set_prop (fst e) (Literal (snd e)) (fst acc), snd acc)
     else if typeof (snd e) = TNumber
     then (set_prop (fst e) (Animated (Interpolation clock (ToNumber sv) (Given (snd e)))) (fst acc),
           snd acc)
     else if typeof (snd e) = TString
     then (set_prop (fst e) (Animated (Interpolation clock (ToString sv) (Given (snd e)))) (fst acc),
           snd acc)
     else if fst e = ''transform'' \<and> isArray (snd e)
     then (if \<not> isArray sv \<or> length (elems (snd e)) \<noteq> length (elems sv)
           then (set_prop (fst e) (Literal (snd e)) (fst acc), warnMsg dev CountMismatch (snd acc))
           else if has_matrix (elems (snd e))
           then (set_prop (fst e) (Literal (snd e)) (fst acc),
                 warnMsg dev MatrixNotAnimatable (snd acc))
           else if \<not> transformsHaveSameLengthTypesAndOrder (elems (snd e)) (elems sv)
           then (set_prop (fst e) (Literal (snd e)) (fst acc),
                 warnMsg dev (TypesMismatch (elems (snd e)) (elems sv)) (snd acc))
           else (set_prop (fst e)
                   (AnimatedTransforms (animate_loop clock (elems (snd e)) (elems sv) 0 []))
                   (fst acc),
                 snd acc))
     else (fst acc, snd acc))"
  unfolding assms animate_entry_def Let_def by (simp only: option.case)

lemma animate_entry_other_key:
  "fst e \<noteq> k \<Longrightarrow> map_of (fst (animate_entry dev prev av acc e)) k = map_of (fst acc) k"
proof (cases av)
  case None
  assume "fst e \<noteq> k"
  with None show ?thesis by (simp add: animate_entry_None map_of_set_prop)
next
  case (Some clock)
  assume ne: "fst e \<noteq> k"
  obtain sv where sv: "sv = (case prev of None \<Rightarrow> snd e
      | Some p \<Rightarrow> if is_nullish (get_prop p (fst e)) then snd e else get_prop p (fst e))"
    by simp
  from Some ne show ?thesis
    by (auto simp: animate_entry_Some [OF sv] map_of_set_prop)
qed

lemma animate_entry_at_key:
  assumes "map_of (fst acc) k = map_of (fst acc') k"
  shows "map_of (fst (animate_entry dev prev av acc e)) k =
         map_of (fst (animate_entry dev prev av acc' e)) k"
proof (cases av)
  case None
  with assms show ?thesis by (simp add: animate_entry_None map_of_set_prop)
next
  case (Some clock)
  obtain sv where sv: "sv = (case prev of None \<Rightarrow> snd e
      | Some p \<Rightarrow> if is_nullish (get_prop p (fst e)) then snd e else get_prop p (fst e))"
    by simp
  from Some assms show ?thesis
    by (auto simp: animate_entry_Some [OF sv] map_of_set_prop)
qed

lemma fold_frame:
  "k \<noteq> q \<Longrightarrow> map_of (fst acc) k = map_of (fst acc') k \<Longrightarrow>
   map_of (fst (foldl (animate_entry dev prev av) acc ts)) k =
   map_of (fst (foldl (animate_entry dev prev av) acc' (filter (\<lambda>e. fst e \<noteq> q) ts))) k"
proof (induction ts arbitrary: acc acc')
  case Nil
  then show ?case by simp
next
  case (Cons e ts)
  show ?case
  proof (cases "fst e = q")
    case True
    with Cons.prems have "map_of (fst (animate_entry dev prev av acc e)) k = map_of (fst acc') k"
      by (simp add: animate_entry_other_key)
    with Cons.IH [OF Cons.prems(1)] True show ?thesis by simp
  next
    case False
    from Cons.prems(2) have "map_of (fst (animate_entry dev prev av acc e)) k =
        map_of (fst (animate_entry dev prev av acc' e)) k"
      by (rule animate_entry_at_key)
    with Cons.IH [OF Cons.prems(1)] False show ?thesis by simp
  qed
qed


lemma upt_2: "[0..<Suc (Suc 0)] = [0, Suc 0]"
  by (simp add: upt_conv_Cons)

lemma not_same_shape:
  assumes "i < length a" and "fld k (obj_view (a ! i)) \<noteq> None"
    and "fld k (obj_view (b ! i)) = None"
  shows "\<not> transformsHaveSameLengthTypesAndOrder a b"
proof
  assume "transformsHaveSameLengthTypesAndOrder a b"
  then have "\<forall>i<length a. \<forall>k. fld k (obj_view (a ! i)) \<noteq> None \<longrightarrow>
      fld k (obj_view (b ! i)) \<noteq> None"
    unfolding same_shape_iff by (rule conjunct2)
  from this [rule_format, OF assms(1,2)] assms(3) show False by (rule notE)
qed

text \<open>
  Claim C7. For every transform pair that the engine animates (the reference value is
  another array, no entry of the new stack has a matrix, and the compatibility check
  passes), the engine emits, for each entry, an interpolated value for the first kind of
  the order perspective, rotate, rotateX, rotateY, rotateZ, scale, scaleX, scaleY, scaleZ,
  skewX, skewY, translateX, translateY that is present in the entry, and drops the entry's
  other kinds.
\<close>

theorem compatible_transforms_decomposed:
  assumes "get_prop p ''transform'' = VArr r' refTransforms" and "r \<noteq> r'"
    and "\<not> has_matrix transforms"
    and "transformsHaveSameLengthTypesAndOrder transforms refTransforms"
  shows "animate_entry dev (Some p) (Some clock) (animatedStyle, raised)
           (''transform'', VArr r transforms) =
         (set_prop ''transform''
            (AnimatedTransforms (decompose clock transforms refTransforms)) animatedStyle,
          raised)"
  using assms same_shape_length_eq [OF assms(4)]
  by (simp add: animate_entry_def animate_loop_decompose)

text \<open>
  The theorem at the reference stack \<^verbatim>\<open>[{scaleX: 1}, {rotate: '0deg', translateX: 0}]\<close>
  and the new stack \<^verbatim>\<open>[{scaleX: 2}, {rotate: '90deg', translateX: 5}]\<close>: the second
  entry carries two kinds, and only \<^verbatim>\<open>rotate\<close> is emitted for it.
\<close>

theorem compatible_transforms_decomposed_witness:
  "animate_entry True
     (Some [(''transform'', VArr 0 [Op (no_fields\<lparr>scaleX := Some (PNum (Fin 1))\<rparr>),
                                   Op (no_fields\<lparr>rotate' := Some (PStr ''0deg''),
                                                  translateX := Some (PNum (Fin 0))\<rparr>)])])
     (Some 7) ([], [])
     (''transform'', VArr 1 [Op (no_fields\<lparr>scaleX := Some (PNum (Fin 2))\<rparr>),
                            Op (no_fields\<lparr>rotate' := Some (PStr ''90deg''),
                                           translateX := Some (PNum (Fin 5))\<rparr>)]) =
   ([(''transform'',
      AnimatedTransforms
        [(ScaleX, Interpolation 7 (ToNumber (Some (PNum (Fin 1)))) (Given (Some (PNum (Fin 2))))),
         (Rotate, Interpolation 7 (Given (Some (PStr ''0deg''))) (Given (Some (PStr ''90deg''))))])],
    [])"
proof -
  let ?from = "[Op (no_fields\<lparr>scaleX := Some (PNum (Fin 1))\<rparr>),
                Op (no_fields\<lparr>rotate' := Some (PStr ''0deg''), translateX := Some (PNum (Fin 0))\<rparr>)]"
  let ?to = "[Op (no_fields\<lparr>scaleX := Some (PNum (Fin 2))\<rparr>),
              Op (no_fields\<lparr>rotate' := Some (PStr ''90deg''), translateX := Some (PNum (Fin 5))\<rparr>)]"
  have 1: "get_prop [(''transform'', VArr 0 ?from)] ''transform'' = VArr 0 ?from"
    by (simp add: get_prop_def)
  have 2: "(1::nat) \<noteq> 0" by simp
  have 3: "\<not> has_matrix ?to" by (simp add: no_fields_def)
  have 4: "transformsHaveSameLengthTypesAndOrder ?to ?from"
    by (simp add: run_comparisons)
  have 5: "decompose 7 ?to ?from =
     [(ScaleX, Interpolation 7 (ToNumber (Some (PNum (Fin 1)))) (Given (Some (PNum (Fin 2))))),
      (Rotate, Interpolation 7 (Given (Some (PStr ''0deg''))) (Given (Some (PStr ''90deg''))))]"
    by (simp add: decompose_def decompose_entry_def first_present_kind_unfold no_fields_def
          List.map_filter_simps upt_2)
  show ?thesis
    using compatible_transforms_decomposed [OF 1 2 3 4, of True 7 "[]" "[]"]
    by (simp only: 5 set_prop.simps)
qed


text \<open>
  Claim C5, as amended. When the engine interpolates a transform property (a clock is
  active and the reference value is not the new value), and the reference value is not an
  array, or the two stacks differ in length, or an entry of the new stack has a matrix, or
  some kind present in an entry of the new stack is absent from the reference entry at that
  index, the engine emits the new stack verbatim for that property and raises one
  diagnostic in a development build and none in a production build; at every other
  property the output of the engine is what it is without the transform entry.
\<close>

theorem incompatible_transforms_verbatim:
  assumes "get_prop p ''transform'' = sv" and "\<not> is_nullish sv"
    and "\<not> strict_eq sv (VArr r transforms)"
    and "\<not> isArray sv \<or> length transforms \<noteq> length (elems sv) \<or> has_matrix transforms \<or>
         (\<exists>i<length transforms. \<exists>k. fld k (obj_view (transforms ! i)) \<noteq> None \<and>
                                      fld k (obj_view (elems sv ! i)) = None)"
  shows "(\<exists>d. animate_entry dev (Some p) (Some clock) (animatedStyle, raised)
                (''transform'', VArr r transforms) =
              (set_prop ''transform'' (Literal (VArr r transforms)) animatedStyle,
               if dev then raised @ [d] else raised)) \<and>
         (\<forall>k. k \<noteq> ''transform'' \<longrightarrow>
            map_of (fst (foldl (animate_entry dev (Some p) (Some clock)) (animatedStyle, raised)
                           entries)) k =
            map_of (fst (foldl (animate_entry dev (Some p) (Some clock)) (animatedStyle, raised)
                           (filter (\<lambda>e. fst e \<noteq> ''transform'') entries))) k)"
proof (rule conjI)
  let ?e = "(''transform'', VArr r transforms)"
  let ?out = "\<lambda>d. (set_prop ''transform'' (Literal (VArr r transforms)) animatedStyle,
               if dev then raised @ [d] else raised)"
  have sv: "sv = (case Some p of None \<Rightarrow> snd ?e
      | Some p \<Rightarrow> if is_nullish (get_prop p (fst ?e)) then snd ?e else get_prop p (fst ?e))"
    using assms(1,2) by simp
  note unfold = animate_entry_Some [OF sv, of dev clock "(animatedStyle, raised)"]
  show "\<exists>d. animate_entry dev (Some p) (Some clock) (animatedStyle, raised) ?e = ?out d"
  proof (cases "\<not> isArray sv \<or> length transforms \<noteq> length (elems sv)")
    case True
    with assms(3) have "animate_entry dev (Some p) (Some clock) (animatedStyle, raised) ?e =
        ?out CountMismatch"
      by (simp add: unfold warnMsg_def)
    then show ?thesis by (rule exI)
  next
    case False
    note arr = this
    show ?thesis
    proof (cases "has_matrix transforms")
      case True
      with arr assms(3) have "animate_entry dev (Some p) (Some clock) (animatedStyle, raised) ?e =
          ?out MatrixNotAnimatable"
        by (simp add: unfold warnMsg_def)
      then show ?thesis by (rule exI)
    next
      case False
      with arr assms(4) obtain i k where "i < length transforms"
        "fld k (obj_view (transforms ! i)) \<noteq> None" "fld k (obj_view (elems sv ! i)) = None"
        by blast
      then have "\<not> transformsHaveSameLengthTypesAndOrder transforms (elems sv)"
        by (rule not_same_shape)
      with False arr assms(3)
      have "animate_entry dev (Some p) (Some clock) (animatedStyle, raised) ?e =
          ?out (TypesMismatch transforms (elems sv))"
        by (simp add: unfold warnMsg_def)
      then show ?thesis by (rule exI)
    qed
  qed
next
  show "\<forall>k. k \<noteq> ''transform'' \<longrightarrow>
            map_of (fst (foldl (animate_entry dev (Some p) (Some clock)) (animatedStyle, raised)
                           entries)) k =
            map_of (fst (foldl (animate_entry dev (Some p) (Some clock)) (animatedStyle, raised)
                           (filter (\<lambda>e. fst e \<noteq> ''transform'') entries))) k"
    by (intro allI impI, rule fold_frame) simp_all
qed


text \<open>
  The theorem in a development build, at the reference stack \<^verbatim>\<open>[{rotate: '0deg'}]\<close> and
  the new stack \<^verbatim>\<open>[{rotate: '90deg'}, {scale: 2}]\<close>, beside a property \<^verbatim>\<open>opacity\<close>.
\<close>

theorem incompatible_transforms_verbatim_witness:
  "(\<exists>d. animate_entry True
           (Some [(''transform'', VArr 0 [Op (no_fields\<lparr>rotate' := Some (PStr ''0deg'')\<rparr>)])])
           (Some 3) ([], [])
           (''transform'', VArr 1 [Op (no_fields\<lparr>rotate' := Some (PStr ''90deg'')\<rparr>),
                                  Op (no_fields\<lparr>scale := Some (PNum (Fin 2))\<rparr>)]) =
         ([(''transform'', Literal (VArr 1 [Op (no_fields\<lparr>rotate' := Some (PStr ''90deg'')\<rparr>),
                                         Op (no_fields\<lparr>scale := Some (PNum (Fin 2))\<rparr>)]))],
          [d])) \<and>
   map_of (fst (foldl (animate_entry True
           (Some [(''transform'', VArr 0 [Op (no_fields\<lparr>rotate' := Some (PStr ''0deg'')\<rparr>)])])
           (Some 3)) ([], [])
        [(''opacity'', VNum (Fin 1)),
         (''transform'', VArr 1 [Op (no_fields\<lparr>rotate' := Some (PStr ''90deg'')\<rparr>),
                                Op (no_fields\<lparr>scale := Some (PNum (Fin 2))\<rparr>)])])) ''opacity'' =
   map_of (fst (foldl (animate_entry True
           (Some [(''transform'', VArr 0 [Op (no_fields\<lparr>rotate' := Some (PStr ''0deg'')\<rparr>)])])
           (Some 3)) ([], [])
        [(''opacity'', VNum (Fin 1))])) ''opacity''"
proof -
  let ?from = "[Op (no_fields\<lparr>rotate' := Some (PStr ''0deg'')\<rparr>)]"
  let ?to = "[Op (no_fields\<lparr>rotate' := Some (PStr ''90deg'')\<rparr>),
              Op (no_fields\<lparr>scale := Some (PNum (Fin 2))\<rparr>)]"
  let ?p = "[(''transform'', VArr 0 ?from)]"
  let ?entries = "[(''opacity'', VNum (Fin 1)), (''transform'', VArr 1 ?to)]"
  have 1: "get_prop ?p ''transform'' = VArr 0 ?from" by (simp add: get_prop_def)
  have 2: "\<not> is_nullish (VArr 0 ?from)" by simp
  have 3: "\<not> strict_eq (VArr 0 ?from) (VArr 1 ?to)" by simp
  have 4: "\<not> isArray (VArr 0 ?from) \<or> length ?to \<noteq> length (elems (VArr 0 ?from)) \<or>
      has_matrix ?to \<or>
      (\<exists>i<length ?to. \<exists>k. fld k (obj_view (?to ! i)) \<noteq> None \<and>
         fld k (obj_view (elems (VArr 0 ?from) ! i)) = None)"
    by simp
  have 5: "filter (\<lambda>e. fst e \<noteq> ''transform'') ?entries = [(''opacity'', VNum (Fin 1))]"
    by simp
  have 6: "''opacity'' \<noteq> ''transform''" by simp
  note inst = incompatible_transforms_verbatim [OF 1 2 3 4, of True 3 "[]" "[]" ?entries]
  from inst have a: "\<exists>d. animate_entry True (Some ?p) (Some 3) ([], []) (''transform'', VArr 1 ?to) =
      ([(''transform'', Literal (VArr 1 ?to))], [d])"
    by (simp only: set_prop.simps if_True append_Nil conj_imp_eq_imp_imp simp_thms)
  from inst have "\<forall>k. k \<noteq> ''transform'' \<longrightarrow>
      map_of (fst (foldl (animate_entry True (Some ?p) (Some 3)) ([], []) ?entries)) k =
      map_of (fst (foldl (animate_entry True (Some ?p) (Some 3)) ([], [])
                     (filter (\<lambda>e. fst e \<noteq> ''transform'') ?entries))) k"
    by (rule conjunct2)
  from this [rule_format, OF 6] have b:
    "map_of (fst (foldl (animate_entry True (Some ?p) (Some 3)) ([], []) ?entries)) ''opacity'' =
     map_of (fst (foldl (animate_entry True (Some ?p) (Some 3)) ([], [])
                    [(''opacity'', VNum (Fin 1))])) ''opacity''"
    by (simp only: 5)
  from a b show ?thesis by (rule conjI)
qed

lemmas run_engine =
  animate_entry_def Let_def get_prop_def run_comparisons animate_loop.simps animate_one_def
  warnMsg_def

text \<open>
  The claim as it was stated fails twice. In a production build the same pair of stacks
  raises no diagnostic: every \<^verbatim>\<open>warnMsg\<close> stands behind \<^verbatim>\<open>if (__DEV__)\<close>. And in a
  development build, the reference stack \<^verbatim>\<open>[{rotate: '0deg', scale: 1}]\<close> and the new stack
  \<^verbatim>\<open>[{rotate: '90deg'}]\<close> differ in their kinds at index 0 (\<^verbatim>\<open>scale\<close> is present in the
  one and not in the other), yet the engine animates the pair and raises nothing: the check
  asks only that the kinds of the new entry be present in the reference entry.
\<close>

theorem incompatible_transforms_counterexample:
  "snd (animate_entry False
          (Some [(''transform'', VArr 0 [Op (no_fields\<lparr>rotate' := Some (PStr ''0deg'')\<rparr>)])])
          (Some 3) ([], [])
          (''transform'', VArr 1 [Op (no_fields\<lparr>rotate' := Some (PStr ''90deg'')\<rparr>),
                                 Op (no_fields\<lparr>scale := Some (PNum (Fin 2))\<rparr>)])) = [] \<and>
   fld Scale (obj_view ([Op (no_fields\<lparr>rotate' := Some (PStr ''0deg''),
                                         scale := Some (PNum (Fin 1))\<rparr>)] ! 0)) \<noteq> None \<and>
   fld Scale (obj_view ([Op (no_fields\<lparr>rotate' := Some (PStr ''90deg'')\<rparr>)] ! 0)) = None \<and>
   animate_entry True
     (Some [(''transform'', VArr 0 [Op (no_fields\<lparr>rotate' := Some (PStr ''0deg''),
                                                 scale := Some (PNum (Fin 1))\<rparr>)])])
     (Some 3) ([], [])
     (''transform'', VArr 1 [Op (no_fields\<lparr>rotate' := Some (PStr ''90deg'')\<rparr>)]) =
   ([(''transform'',
      AnimatedTransforms
        [(Rotate, Interpolation 3 (Given (Some (PStr ''0deg''))) (Given (Some (PStr ''90deg''))))])],
    [])"
  by (simp add: run_engine)


subsection \<open>The style the hook returns\<close>

lemma map_of_literal_style: "map_of (literal_style s) k = map_option Literal (map_of s k)"
  unfolding literal_style_def by (induction s) auto

lemma map_of_filter_keys:
  "map_of (filter (\<lambda>e. fst e \<notin> R) s) k = (if k \<in> R then None else map_of s k)"
  by (induction s) auto

lemma object_assign_other:
  "k \<notin> fst ` set source \<Longrightarrow> map_of (object_assign target source) k = map_of target k"
  unfolding object_assign_def
  by (induction source arbitrary: target) (auto simp: map_of_set_prop)

lemma fold_other_keys:
  "k \<notin> fst ` set ts \<Longrightarrow>
   map_of (fst (foldl (animate_entry dev prev av) acc ts)) k = map_of (fst acc) k"
  by (induction ts arbitrary: acc) (auto simp: animate_entry_other_key)

lemma fold_keys:
  "k \<notin> fst ` set ts \<Longrightarrow> k \<notin> fst ` set (fst (foldl (animate_entry dev prev av) ([], []) ts))"
  using fold_other_keys [of k ts dev prev av "([], [])"]
  by (simp add: map_of_eq_None_iff)

text \<open>
  Claim C4, as amended. When the differ reports a change, or the style has no
  transitionable subset (\<^verbatim>\<open>transitionProperty\<close> is not a string), the hook returns the raw
  input style as it is, directive keys included. Otherwise, for every property that is not
  in the transitionable subset, the returned style has no entry if the property is one of
  the four reserved directive keys, and has the raw input value, verbatim, if it is not.
\<close>

theorem useStyleTransition_output:
  "(transitionStyleHasChanged (transitionStyle style) (currentStyle st) \<or>
      transitionStyle style = None \<longrightarrow>
      fst (useStyleTransition dev st style) = literal_style style) \<and>
   (\<not> transitionStyleHasChanged (transitionStyle style) (currentStyle st) \<and>
      transitionStyle style \<noteq> None \<and> k \<notin> transitioning style \<longrightarrow>
      map_of (fst (useStyleTransition dev st style)) k =
        (if k \<in> set reserved_keys then None else map_option Literal (map_of style k)))"
proof (intro conjI impI)
  assume "transitionStyleHasChanged (transitionStyle style) (currentStyle st) \<or>
      transitionStyle style = None"
  then show "fst (useStyleTransition dev st style) = literal_style style"
    by (auto simp: useStyleTransition_def)
next
  assume a: "\<not> transitionStyleHasChanged (transitionStyle style) (currentStyle st) \<and>
      transitionStyle style \<noteq> None \<and> k \<notin> transitioning style"
  then obtain ts where ts: "transitionStyle style = Some ts" by auto
  with a have k: "k \<notin> fst ` set ts" by (simp add: transitioning_def)
  let ?result = "foldl (animate_entry dev (previousStyle st) (animatedValue st)) ([], []) ts"
  from a ts have "fst (useStyleTransition dev st style) =
      object_assign (literal_style (filter (\<lambda>entry. fst entry \<notin> set reserved_keys) style))
        (fst ?result)"
    by (simp add: useStyleTransition_def Let_def)
  moreover from k have "k \<notin> fst ` set (fst ?result)" by (rule fold_keys)
  ultimately show "map_of (fst (useStyleTransition dev st style)) k =
        (if k \<in> set reserved_keys then None else map_option Literal (map_of style k))"
    by (simp add: object_assign_other map_of_literal_style map_of_filter_keys)
qed

text \<open>
  The theorem at the style \<^verbatim>\<open>{transitionDuration: 300, opacity: 1}\<close>, which has no
  transitionable subset, and at the style
  \<^verbatim>\<open>{transitionProperty: 'opacity', transitionDuration: 300, opacity: 1, color: 'red'}\<close>, for
  the properties \<^verbatim>\<open>color\<close> and \<^verbatim>\<open>transitionDuration\<close>; both on the first render.
\<close>

theorem useStyleTransition_output_witness:
  "fst (useStyleTransition True
       (first_render [(''transitionDuration'', VNum (Fin 300)), (''opacity'', VNum (Fin 1))])
       [(''transitionDuration'', VNum (Fin 300)), (''opacity'', VNum (Fin 1))]) =
     [(''transitionDuration'', Literal (VNum (Fin 300))), (''opacity'', Literal (VNum (Fin 1)))] \<and>
   map_of (fst (useStyleTransition True
       (first_render [(''transitionProperty'', VStr ''opacity''),
                      (''transitionDuration'', VNum (Fin 300)),
                      (''opacity'', VNum (Fin 1)), (''color'', VStr ''red'')])
       [(''transitionProperty'', VStr ''opacity''), (''transitionDuration'', VNum (Fin 300)),
        (''opacity'', VNum (Fin 1)), (''color'', VStr ''red'')])) ''color'' =
     Some (Literal (VStr ''red'')) \<and>
   map_of (fst (useStyleTransition True
       (first_render [(''transitionProperty'', VStr ''opacity''),
                      (''transitionDuration'', VNum (Fin 300)),
                      (''opacity'', VNum (Fin 1)), (''color'', VStr ''red'')])
       [(''transitionProperty'', VStr ''opacity''), (''transitionDuration'', VNum (Fin 300)),
        (''opacity'', VNum (Fin 1)), (''color'', VStr ''red'')])) ''transitionDuration'' = None"
proof -
  let ?plain = "[(''transitionDuration'', VNum (Fin 300)), (''opacity'', VNum (Fin 1))]"
  let ?s = "[(''transitionProperty'', VStr ''opacity''), (''transitionDuration'', VNum (Fin 300)),
        (''opacity'', VNum (Fin 1)), (''color'', VStr ''red'')]"
  have p: "transitionStyle ?plain = None"
    by (simp add: transitionStyle_def get_prop_def)
  have ts: "transitionStyle ?s = Some [(''opacity'', VNum (Fin 1))]"
    by (simp add: transitionStyle_def transition_step_def get_prop_def trim_def is_space_def)
  have same: "\<not> transitionStyleHasChanged (transitionStyle ?s) (currentStyle (first_render ?s))"
    by (simp add: ts first_render_def transitionStyleHasChanged_def get_prop_def
          num_strict_eq_def)
  have tr: "transitioning ?s = {''opacity''}"
    by (simp add: transitioning_def ts)
  have 1: "fst (useStyleTransition True (first_render ?plain) ?plain) =
      [(''transitionDuration'', Literal (VNum (Fin 300))), (''opacity'', Literal (VNum (Fin 1)))]"
    using useStyleTransition_output [of ?plain "first_render ?plain" True k] p
    by (simp add: literal_style_def)
  have 2: "map_of (fst (useStyleTransition True (first_render ?s) ?s)) ''color'' =
      Some (Literal (VStr ''red''))"
    using useStyleTransition_output [of ?s "first_render ?s" True "''color''"] same ts tr
    by (simp add: reserved_keys_def)
  have 3: "map_of (fst (useStyleTransition True (first_render ?s) ?s)) ''transitionDuration'' = None"
    using useStyleTransition_output [of ?s "first_render ?s" True "''transitionDuration''"]
      same ts tr
    by (simp add: reserved_keys_def)
  from 1 2 3 show ?thesis by blast
qed

lemmas run_hook =
  useStyleTransition_def first_render_def transitionStyle_def transition_step_def
  transitionStyleHasChanged_def get_prop_def literal_style_def reserved_keys_def
  object_assign_def trim_def is_space_def Let_def

text \<open>
  The claim as it was stated fails at the style \<^verbatim>\<open>{transitionDuration: 300, opacity: 1}\<close>
  on its first render: the style has no \<^verbatim>\<open>transitionProperty\<close>, the hook leaves at
  \<^verbatim>\<open>if (transitionStyle === undefined) return style\<close>, and the returned style holds the
  directive key \<^verbatim>\<open>transitionDuration\<close>.
\<close>

theorem useStyleTransition_output_counterexample:
  "map_of (fst (useStyleTransition True
       (first_render [(''transitionDuration'', VNum (Fin 300)), (''opacity'', VNum (Fin 1))])
       [(''transitionDuration'', VNum (Fin 300)), (''opacity'', VNum (Fin 1))]))
     ''transitionDuration'' = Some (Literal (VNum (Fin 300)))"
  by (simp add: run_hook)


subsection \<open>A style that never settles\<close>

text \<open>
  The hook sets its state during the render whenever the differ reports a change, and so
  relies on the differ reporting none on the next render of the same style. A render that
  reports a change leaves the style as the current one and makes a new clock.
\<close>

lemma render_after_change:
  assumes "transitionStyleHasChanged (transitionStyle style) (currentStyle st)"
  shows "snd (snd (useStyleTransition dev st style)) =
    st\<lparr>currentStyle := Some style, previousStyle := currentStyle st,
       animatedValue := Some (clocks st), clocks := Suc (clocks st)\<rparr>"
  using assms by (simp add: useStyleTransition_def)

text \<open>
  With \<^verbatim>\<open>NaN\<close> in a transitioning property the differ reports a change on every render:
  for \<^verbatim>\<open>{transitionProperty: 'opacity', opacity: NaN}\<close> whatever the current style is, and
  for \<^verbatim>\<open>{transitionProperty: 'transform', transform: [{scale: NaN}]}\<close> also when the current
  style is that very style. So every render sets the state again.
\<close>

lemma never_settles_number:
  "transitionStyleHasChanged
     (transitionStyle [(''transitionProperty'', VStr ''opacity''), (''opacity'', VNum NaN)])
     (currentStyle st)"
proof -
  have ts: "transitionStyle [(''transitionProperty'', VStr ''opacity''), (''opacity'', VNum NaN)]
      = Some [(''opacity'', VNum NaN)]"
    by (simp add: transitionStyle_def transition_step_def get_prop_def trim_def is_space_def)
  have ne: "\<not> strict_eq v (VNum NaN)" for v
    by (cases v) (simp_all add: num_strict_eq_def)
  have nv: "get_prop [(''opacity'', VNum NaN)] ''opacity'' = VNum NaN"
    by (simp add: get_prop_def)
  show ?thesis
    unfolding ts
    by (cases "currentStyle st") (simp_all add: transitionStyleHasChanged_def Let_def nv ne)
qed

lemma never_settles_stack:
  assumes "currentStyle st =
    Some [(''transitionProperty'', VStr ''transform''),
          (''transform'', VArr 0 [Op (no_fields\<lparr>scale := Some (PNum NaN)\<rparr>)])]"
  shows "transitionStyleHasChanged
     (transitionStyle [(''transitionProperty'', VStr ''transform''),
                       (''transform'', VArr 0 [Op (no_fields\<lparr>scale := Some (PNum NaN)\<rparr>)])])
     (currentStyle st)"
proof -
  have ts: "transitionStyle [(''transitionProperty'', VStr ''transform''),
                       (''transform'', VArr 0 [Op (no_fields\<lparr>scale := Some (PNum NaN)\<rparr>)])]
      = Some [(''transform'', VArr 0 [Op (no_fields\<lparr>scale := Some (PNum NaN)\<rparr>)])]"
    by (simp add: transitionStyle_def transition_step_def get_prop_def trim_def is_space_def)
  show ?thesis
    unfolding ts assms
    by (simp add: transitionStyleHasChanged_def get_prop_def run_comparisons)
qed

end
